theory Spec2Isabelle
  imports Main
begin

section \<open>JSON documents and Python's operations on them\<close>

text \<open>
  A document read by \<^verbatim>\<open>json.load\<close>. An object keeps its keys in insertion order, as a
  Python \<^verbatim>\<open>dict\<close> does, so it is an association list; \<^verbatim>\<open>json.dump(..., indent=4)\<close> is a
  function of this value, key order included, so two equal documents are written as the
  same bytes. Numbers are integers: the documents of this program hold no fractions. A
  loaded object has each key once; on a list that repeats a key the operations below
  read and write its first occurrence.
\<close>

datatype json =
    JNull
  | JBool bool
  | JInt int
  | JStr string
  | JArr "json list"
  | JObj "(string \<times> json) list"

text \<open>The exceptions the modelled code can raise.\<close>

datatype err =
    KeyError
  | TypeError
  | IndexError
  | AttributeError
  | JSONDecodeError
  | ParserError
  | FileNotFoundError
  | FileExistsError
  | NotADirectoryError
  | IsADirectoryError
  | OSError

text \<open>Sequencing of a computation that may raise.\<close>

definition and_then :: "err + 'a \<Rightarrow> ('a \<Rightarrow> err + 'b) \<Rightarrow> err + 'b" where
  "and_then r f = (case r of Inl e \<Rightarrow> Inl e | Inr v \<Rightarrow> f v)"

text \<open>\<^verbatim>\<open>d[k] = v\<close> on a dict: an existing key keeps its place, a new key goes last.\<close>

fun dict_set :: "'k \<Rightarrow> 'v \<Rightarrow> ('k \<times> 'v) list \<Rightarrow> ('k \<times> 'v) list" where
  "dict_set k v [] = [(k, v)]"
| "dict_set k v ((k', v') # al) =
     (if k' = k then (k, v) # al else (k', v') # dict_set k v al)"

text \<open>\<^verbatim>\<open>d[k]\<close>: \<^verbatim>\<open>KeyError\<close> on a missing key, \<^verbatim>\<open>TypeError\<close> when \<^verbatim>\<open>d\<close> is a list, a
  string, a number, a boolean or \<^verbatim>\<open>None\<close> (the index is a string).\<close>

definition getitem :: "json \<Rightarrow> string \<Rightarrow> err + json" where
  "getitem d k =
     (case d of
        JObj al \<Rightarrow> (case map_of al k of None \<Rightarrow> Inl KeyError | Some v \<Rightarrow> Inr v)
      | _ \<Rightarrow> Inl TypeError)"

text \<open>\<^verbatim>\<open>d[k] = v\<close>: \<^verbatim>\<open>TypeError\<close> unless \<^verbatim>\<open>d\<close> is a dict.\<close>

definition setitem :: "json \<Rightarrow> string \<Rightarrow> json \<Rightarrow> err + json" where
  "setitem d k v = (case d of JObj al \<Rightarrow> Inr (JObj (dict_set k v al)) | _ \<Rightarrow> Inl TypeError)"

fun starts_with :: "string \<Rightarrow> string \<Rightarrow> bool" where
  "starts_with s [] = True"
| "starts_with [] (p # ps) = False"
| "starts_with (c # cs) (p # ps) = (c = p \<and> starts_with cs ps)"

fun has_substring :: "string \<Rightarrow> string \<Rightarrow> bool" where
  "has_substring [] k = (k = [])"
| "has_substring (c # cs) k = (starts_with (c # cs) k \<or> has_substring cs k)"

text \<open>\<^verbatim>\<open>k in d\<close> for a string \<^verbatim>\<open>k\<close>: key membership on a dict, element membership on a
  list, substring test on a string, \<^verbatim>\<open>TypeError\<close> otherwise.\<close>

definition contains :: "json \<Rightarrow> string \<Rightarrow> err + bool" where
  "contains d k =
     (case d of
        JObj al \<Rightarrow> Inr (k \<in> fst ` set al)
      | JArr xs \<Rightarrow> Inr (JStr k \<in> set xs)
      | JStr s \<Rightarrow> Inr (has_substring s k)
      | _ \<Rightarrow> Inl TypeError)"

text \<open>Python's truth value of a document.\<close>

definition truthy :: "json \<Rightarrow> bool" where
  "truthy d =
     (case d of
        JNull \<Rightarrow> False
      | JBool b \<Rightarrow> b
      | JInt i \<Rightarrow> i \<noteq> 0
      | JStr s \<Rightarrow> s \<noteq> []
      | JArr xs \<Rightarrow> xs \<noteq> []
      | JObj al \<Rightarrow> al \<noteq> [])"

definition META_TEMPLATE :: json where
  "META_TEMPLATE = JObj
     [(''self'', JStr ''meta.json''),
      (''selfDirName'', JStr ''''),
      (''metaTargets'', JArr []),
      (''files'', JObj []),
      (''versionInfo'', JObj [])]"

definition BUILD_INFO_TEMPLATE :: json where
  "BUILD_INFO_TEMPLATE = JObj
     [(''buildNode'', JStr ''''),
      (''buildId'', JInt 0),
      (''buildTimestamp'', JStr ''''),
      (''buildYear'', JInt 0),
      (''buildMonth'', JInt 0),
      (''buildDay'', JInt 0),
      (''buildHour'', JInt 0),
      (''buildMinute'', JInt 0),
      (''buildSecond'', JInt 0),
      (''versionIar'', JStr ''''),
      (''versionPython'', JStr ''''),
      (''versionJlink'', JStr ''''),
      (''versionControlSystem'',
         JObj [(''type'', JStr ''git''), (''repositories'', JObj [])])]"

section \<open>Version extraction\<close>

text \<open>
  \<^verbatim>\<open>re.search(r"(\d+)\.(\d+)\.(\d+)\.(\d+)", file)\<close>: the leftmost position where four
  runs of digits separated by dots start. Each \<^verbatim>\<open>\d+\<close> is greedy, and a shorter run can
  never be followed by a dot, so each group is the whole run of digits. File names are
  ASCII here, so \<^verbatim>\<open>\d\<close> is one of the ten digits.
\<close>

definition is_digit :: "char \<Rightarrow> bool" where
  "is_digit c = (c \<in> set ''0123456789'')"

text \<open>A non-empty run of digits followed by a dot: the run and what follows the dot.\<close>

definition digits_dot :: "string \<Rightarrow> (string \<times> string) option" where
  "digits_dot s =
     (let g = takeWhile is_digit s in
      if g = [] then None
      else (case dropWhile is_digit s of
              [] \<Rightarrow> None
            | c # rest \<Rightarrow> if c = CHR ''.'' then Some (g, rest) else None))"

text \<open>The pattern matched at the start of the string: the four groups.\<close>

definition match_here :: "string \<Rightarrow> string list option" where
  "match_here s =
     (case digits_dot s of
        None \<Rightarrow> None
      | Some (g1, s1) \<Rightarrow>
          (case digits_dot s1 of
             None \<Rightarrow> None
           | Some (g2, s2) \<Rightarrow>
               (case digits_dot s2 of
                  None \<Rightarrow> None
                | Some (g3, s3) \<Rightarrow>
                    (let g4 = takeWhile is_digit s3 in
                     if g4 = [] then None else Some [g1, g2, g3, g4]))))"

fun re_search_version :: "string \<Rightarrow> string list option" where
  "re_search_version [] = None"
| "re_search_version (c # cs) =
     (case match_here (c # cs) of
        Some groups \<Rightarrow> Some groups
      | None \<Rightarrow> re_search_version cs)"

text \<open>\<^verbatim>\<open>int(group)\<close> on a run of digits.\<close>

definition digit_value :: "char \<Rightarrow> nat" where
  "digit_value c = of_char c - 48"

definition int_of_digits :: "string \<Rightarrow> nat" where
  "int_of_digits g = foldl (\<lambda>n c. 10 * n + digit_value c) 0 g"

text \<open>\<^verbatim>\<open>str(n)\<close> for a natural number.\<close>

fun str_of_nat :: "nat \<Rightarrow> string" where
  "str_of_nat n =
     (if n < 10 then [char_of (48 + n)]
      else str_of_nat (n div 10) @ [char_of (48 + n mod 10)])"

declare str_of_nat.simps [simp del]

text \<open>\<^verbatim>\<open>sep.join(parts)\<close>.\<close>

fun join :: "string \<Rightarrow> string list \<Rightarrow> string" where
  "join sep [] = []"
| "join sep [p] = p"
| "join sep (p # q # ps) = p @ sep @ join sep (q # ps)"

text \<open>The record stored under \<^verbatim>\<open>versionInfo\<close> for the groups of a match.\<close>

definition version_info :: "string list \<Rightarrow> json" where
  "version_info groups = JObj
     ([(''versionCompact'', JStr (join ''.'' (map (str_of_nat \<circ> int_of_digits) groups))),
       (''versionFull'', JStr (join ''.'' groups))]
      @ zip [''versionFamily'', ''versionMajor'', ''versionMinor'', ''versionPatch'']
            (map (\<lambda>g. JInt (int (int_of_digits g))) groups))"

section \<open>The directory tree and the manifest store\<close>

text \<open>
  A file holds JSON text or something else. A directory is what \<^verbatim>\<open>os.walk\<close> shows of it:
  its files and its sub-directories, each in listing order. A file created in a directory
  is listed last; a file written again keeps its place. A real directory has every name
  once; where a statement needs that, it says so.
\<close>

datatype content = Json json | Other

datatype dir = Dir (dfiles: "(string \<times> content) list") (dsubs: "(string \<times> dir) list")

text \<open>\<^verbatim>\<open>open(path, "w")\<close> and \<^verbatim>\<open>json.dump\<close> in a directory whose sub-directories are
  \<^verbatim>\<open>dirs\<close>: a path that is a directory cannot be opened.\<close>

definition write_file ::
  "string \<Rightarrow> content \<Rightarrow> string list \<Rightarrow> (string \<times> content) list
     \<Rightarrow> (string \<times> content) list \<times> err option" where
  "write_file name c dirs files =
     (if name \<in> set dirs then (files, Some IsADirectoryError)
      else (dict_set name c files, None))"

text \<open>\<^verbatim>\<open>_load_json_file\<close>: seeds the file with the template when it is not there, then
  reads it back.\<close>

definition load_json_file ::
  "string \<Rightarrow> json \<Rightarrow> string list \<Rightarrow> (string \<times> content) list
     \<Rightarrow> (string \<times> content) list \<times> (err + json)" where
  "load_json_file name template dirs files =
     (case (if name \<notin> fst ` set files then write_file name (Json template) dirs files
            else (files, None)) of
        (files', Some e) \<Rightarrow> (files', Inl e)
      | (files', None) \<Rightarrow>
          (case map_of files' name of
             Some (Json d) \<Rightarrow> (files', Inr d)
           | Some Other \<Rightarrow> (files', Inl JSONDecodeError)
           | None \<Rightarrow> (files', Inl FileNotFoundError)))"

definition save_json_file ::
  "string \<Rightarrow> json \<Rightarrow> string list \<Rightarrow> (string \<times> content) list
     \<Rightarrow> (string \<times> content) list \<times> err option" where
  "save_json_file name d dirs files = write_file name (Json d) dirs files"

text \<open>
  \<^verbatim>\<open>for root, dirs, files in os.walk(top)\<close>, top-down: the body runs on a directory, given
  its base name, the names of its sub-directories and its files, and leaves new files;
  then the walk descends into each sub-directory in listing order. The first exception
  stops the walk, and the tree is left as it is at that moment.
\<close>

fun os_walk ::
  "(string \<Rightarrow> string list \<Rightarrow> (string \<times> content) list
      \<Rightarrow> (string \<times> content) list \<times> err option)
     \<Rightarrow> string \<Rightarrow> dir \<Rightarrow> dir \<times> err option"
  and os_walk_subs ::
  "(string \<Rightarrow> string list \<Rightarrow> (string \<times> content) list
      \<Rightarrow> (string \<times> content) list \<times> err option)
     \<Rightarrow> (string \<times> dir) list \<Rightarrow> (string \<times> dir) list \<times> err option" where
  "os_walk body root (Dir files subs) =
     (case body root (map fst subs) files of
        (files', Some e) \<Rightarrow> (Dir files' subs, Some e)
      | (files', None) \<Rightarrow>
          (case os_walk_subs body subs of (subs', r) \<Rightarrow> (Dir files' subs', r)))"
| "os_walk_subs body [] = ([], None)"
| "os_walk_subs body ((name, d) # rest) =
     (case os_walk body name d of
        (d', Some e) \<Rightarrow> ((name, d') # rest, Some e)
      | (d', None) \<Rightarrow>
          (case os_walk_subs body rest of (rest', r) \<Rightarrow> ((name, d') # rest', r)))"

text \<open>The directory reached from \<^verbatim>\<open>d\<close> along a path of sub-directory names, and the
  manifest of that directory.\<close>

fun subdir_at :: "dir \<Rightarrow> string list \<Rightarrow> dir option" where
  "subdir_at d [] = Some d"
| "subdir_at d (n # p) =
     (case map_of (dsubs d) n of None \<Rightarrow> None | Some s \<Rightarrow> subdir_at s p)"

definition manifest_at :: "dir \<Rightarrow> string list \<Rightarrow> content option" where
  "manifest_at d p =
     (case subdir_at d p of None \<Rightarrow> None | Some s \<Rightarrow> map_of (dfiles s) ''meta.json'')"

text \<open>\<^verbatim>\<open>os.path.basename(root)\<close> for the directory the walk reaches along the path \<^verbatim>\<open>p\<close>,
  when the walk started at a directory whose base name is \<^verbatim>\<open>root\<close>.\<close>

definition basename_at :: "string \<Rightarrow> string list \<Rightarrow> string" where
  "basename_at root p = (if p = [] then root else last p)"

section \<open>Build-info synthesis\<close>

text \<open>
  \<^verbatim>\<open>os.environ\<close> in iteration order. \<^verbatim>\<open>dateutil.parser.parse\<close> and \<^verbatim>\<open>json.loads\<close> are
  library functions outside the repository: they are parameters, \<^verbatim>\<open>parse\<close> and
  \<^verbatim>\<open>loads\<close>, that return a value or raise. A \<^verbatim>\<open>timestamp\<close> is what
  \<^verbatim>\<open>_get_timestamp_from_env\<close> reads off the parsed instant; \<^verbatim>\<open>ts_iso\<close> stands for
  \<^verbatim>\<open>timestamp.astimezone().isoformat()\<close>.
\<close>

record timestamp =
  ts_iso :: string
  ts_year :: int
  ts_month :: int
  ts_day :: int
  ts_hour :: int
  ts_minute :: int
  ts_second :: int

definition environ_get :: "(string \<times> string) list \<Rightarrow> string \<Rightarrow> string \<Rightarrow> string" where
  "environ_get environ name dflt = (case map_of environ name of None \<Rightarrow> dflt | Some v \<Rightarrow> v)"

definition get_timestamp_from_env ::
  "(string \<Rightarrow> err + timestamp) \<Rightarrow> (string \<times> string) list \<Rightarrow> string \<Rightarrow> err + timestamp" where
  "get_timestamp_from_env parse environ env_var_name =
     parse (environ_get environ env_var_name [])"

text \<open>\<^verbatim>\<open>s.split(sep, maxsplit)\<close> and \<^verbatim>\<open>s.split(sep)\<close> for a one-character separator.\<close>

fun split_max :: "char \<Rightarrow> nat \<Rightarrow> string \<Rightarrow> string list" where
  "split_max sep n [] = [[]]"
| "split_max sep n (c # cs) =
     (if c = sep \<and> 0 < n then [] # split_max sep (n - 1) cs
      else (case split_max sep n cs of [] \<Rightarrow> [[c]] | p # ps \<Rightarrow> (c # p) # ps))"

fun split_on :: "char \<Rightarrow> string \<Rightarrow> string list" where
  "split_on sep [] = [[]]"
| "split_on sep (c # cs) =
     (if c = sep then [] # split_on sep cs
      else (case split_on sep cs of [] \<Rightarrow> [[c]] | p # ps \<Rightarrow> (c # p) # ps))"

text \<open>\<^verbatim>\<open>str.upper\<close>, \<^verbatim>\<open>str.lower\<close> and \<^verbatim>\<open>str.capitalize\<close> on ASCII text: the names of
  environment variables.\<close>

definition upper_char :: "char \<Rightarrow> char" where
  "upper_char c =
     (let n = (of_char c :: nat) in if 97 \<le> n \<and> n \<le> 122 then char_of (n - 32) else c)"

definition lower_char :: "char \<Rightarrow> char" where
  "lower_char c =
     (let n = (of_char c :: nat) in if 65 \<le> n \<and> n \<le> 90 then char_of (n + 32) else c)"

definition capitalize :: "string \<Rightarrow> string" where
  "capitalize s = (case s of [] \<Rightarrow> [] | c # cs \<Rightarrow> upper_char c # map lower_char cs)"

text \<open>\<^verbatim>\<open>"".join(x.capitalize() or "_" for x in repo_name.split("_"))\<close>.\<close>

definition camel_case :: "string \<Rightarrow> string" where
  "camel_case repo_name =
     concat (map (\<lambda>x. if capitalize x = [] then ''_'' else capitalize x)
                 (split_on CHR ''_'' repo_name))"

text \<open>\<^verbatim>\<open>_get_repo_name\<close>. The two indexings raise \<^verbatim>\<open>IndexError\<close> out of range.\<close>

definition get_repo_name :: "string \<Rightarrow> err + string" where
  "get_repo_name env_var_name =
     (case split_max CHR ''_'' 2 env_var_name of
        a # b # repo_name # rest \<Rightarrow>
          (case camel_case repo_name of
             [] \<Rightarrow> Inl IndexError
           | c # cs \<Rightarrow> Inr (lower_char c # cs))
      | _ \<Rightarrow> Inl IndexError)"

text \<open>The loop over \<^verbatim>\<open>os.environ.items()\<close> of \<^verbatim>\<open>generate_build_info_file\<close>.\<close>

fun add_repositories ::
  "(string \<Rightarrow> err + json) \<Rightarrow> (string \<times> string) list \<Rightarrow> json \<Rightarrow> err + json" where
  "add_repositories loads [] b = Inr b"
| "add_repositories loads ((key, val) # rest) b =
     (if starts_with key ''GIT_INFO_'' then
        (case get_repo_name key of
           Inl e \<Rightarrow> Inl e
         | Inr repo_name \<Rightarrow>
             (case loads val of
                Inl e \<Rightarrow> Inl e
              | Inr repo_info \<Rightarrow>
                  (case and_then (getitem b ''versionControlSystem'') (\<lambda>vcs.
                        and_then (getitem vcs ''repositories'') (\<lambda>repos.
                        and_then (setitem repos repo_name repo_info) (\<lambda>repos'.
                        and_then (setitem vcs ''repositories'' repos') (\<lambda>vcs'.
                        setitem b ''versionControlSystem'' vcs')))) of
                     Inl e \<Rightarrow> Inl e
                   | Inr b' \<Rightarrow> add_repositories loads rest b')))
      else add_repositories loads rest b)"

text \<open>What \<^verbatim>\<open>generate_build_info_file\<close> does to the loaded document, statement by
  statement.\<close>

definition build_info_body ::
  "(string \<Rightarrow> err + timestamp) \<Rightarrow> (string \<Rightarrow> err + json) \<Rightarrow> (string \<times> string) list
     \<Rightarrow> json \<Rightarrow> err + json" where
  "build_info_body parse loads environ build_info_json =
     and_then (setitem build_info_json ''buildNode'' (JStr (environ_get environ ''NODE_NAME'' []))) (\<lambda>b1.
     and_then (setitem b1 ''buildId'' (JStr (environ_get environ ''BUILD_ID'' []))) (\<lambda>b2.
     and_then (get_timestamp_from_env parse environ ''BUILD_TIMESTAMP'') (\<lambda>ts.
     and_then (setitem b2 ''buildTimestamp'' (JStr (ts_iso ts))) (\<lambda>b3.
     and_then (setitem b3 ''buildYear'' (JInt (ts_year ts))) (\<lambda>b4.
     and_then (setitem b4 ''buildMonth'' (JInt (ts_month ts))) (\<lambda>b5.
     and_then (setitem b5 ''buildDay'' (JInt (ts_day ts))) (\<lambda>b6.
     and_then (setitem b6 ''buildHour'' (JInt (ts_hour ts))) (\<lambda>b7.
     and_then (setitem b7 ''buildMinute'' (JInt (ts_minute ts))) (\<lambda>b8.
     and_then (setitem b8 ''buildSecond'' (JInt (ts_second ts))) (\<lambda>b9.
     and_then (setitem b9 ''versionIar'' (JStr (environ_get environ ''IAR_VERSION'' []))) (\<lambda>b10.
     and_then (setitem b10 ''versionPython'' (JStr (environ_get environ ''PYTHON_VERSION'' []))) (\<lambda>b11.
     and_then (setitem b11 ''versionJlink'' (JStr (environ_get environ ''JLINK_VERSION'' []))) (\<lambda>b12.
     and_then (getitem b12 ''versionControlSystem'') (\<lambda>vcs.
     and_then (setitem vcs ''repositories'' (JObj [])) (\<lambda>vcs'.
     and_then (setitem b12 ''versionControlSystem'' vcs') (\<lambda>b13.
     add_repositories loads environ b13))))))))))))))))"

text \<open>\<^verbatim>\<open>generate_build_info_file\<close> on the file \<^verbatim>\<open>name\<close> of a directory.\<close>

definition generate_build_info_file ::
  "(string \<Rightarrow> err + timestamp) \<Rightarrow> (string \<Rightarrow> err + json) \<Rightarrow> (string \<times> string) list
     \<Rightarrow> string \<Rightarrow> string list \<Rightarrow> (string \<times> content) list
     \<Rightarrow> (string \<times> content) list \<times> err option" where
  "generate_build_info_file parse loads environ name dirs files =
     (case load_json_file name BUILD_INFO_TEMPLATE dirs files of
        (files1, Inl e) \<Rightarrow> (files1, Some e)
      | (files1, Inr build_info_json) \<Rightarrow>
          (case build_info_body parse loads environ build_info_json of
             Inl e \<Rightarrow> (files1, Some e)
           | Inr b \<Rightarrow> save_json_file name b dirs files1))"

section \<open>The tree manifest walker\<close>

text \<open>\<^verbatim>\<open>update_meta_json(file_path, key, value, json_path)\<close>, where \<^verbatim>\<open>file_path\<close> is the
  file \<^verbatim>\<open>file_name\<close> of a directory whose base name is \<^verbatim>\<open>dir_name\<close>.\<close>

definition update_meta_body :: "string \<Rightarrow> string \<Rightarrow> string \<Rightarrow> string \<Rightarrow> json \<Rightarrow> err + json" where
  "update_meta_body dir_name key val json_path meta_json =
     and_then (getitem meta_json ''selfDirName'') (\<lambda>self_dir_name.
     and_then (if \<not> truthy self_dir_name
               then setitem meta_json ''selfDirName'' (JStr dir_name)
               else Inr meta_json) (\<lambda>m1.
     and_then (getitem m1 json_path) (\<lambda>inner.
     and_then (setitem inner key (JStr val)) (\<lambda>inner'.
     setitem m1 json_path inner'))))"

definition update_meta_json ::
  "string \<Rightarrow> string \<Rightarrow> string \<Rightarrow> string \<Rightarrow> string \<Rightarrow> string list
     \<Rightarrow> (string \<times> content) list \<Rightarrow> (string \<times> content) list \<times> err option" where
  "update_meta_json dir_name file_name key val json_path dirs files =
     (case load_json_file file_name META_TEMPLATE dirs files of
        (files1, Inl e) \<Rightarrow> (files1, Some e)
      | (files1, Inr meta_json) \<Rightarrow>
          (case update_meta_body dir_name key val json_path meta_json of
             Inl e \<Rightarrow> (files1, Some e)
           | Inr m \<Rightarrow> save_json_file file_name m dirs files1))"

text \<open>One entry of \<^verbatim>\<open>metaTargets\<close> as \<^verbatim>\<open>create_meta_files_all\<close> writes it.\<close>

definition meta_target :: "string \<Rightarrow> json" where
  "meta_target d = JObj
     [(''metaInformationFile'', JStr (d @ ''/meta.json'')), (''targetName'', JStr d)]"

text \<open>The version loop of \<^verbatim>\<open>create_meta_files_all\<close>: every matching file assigns
  \<^verbatim>\<open>versionInfo\<close>, and the loop has no exit.\<close>

fun scan_versions :: "string list \<Rightarrow> json \<Rightarrow> err + json" where
  "scan_versions [] meta_json = Inr meta_json"
| "scan_versions (file # files) meta_json =
     (case re_search_version file of
        None \<Rightarrow> scan_versions files meta_json
      | Some groups \<Rightarrow>
          (case setitem meta_json ''versionInfo'' (version_info groups) of
             Inl e \<Rightarrow> Inl e
           | Inr m \<Rightarrow> scan_versions files m))"

text \<open>The three blocks of the body of the walk of \<^verbatim>\<open>create_meta_files_all\<close>, on the
  loaded manifest; \<^verbatim>\<open>files\<close> is the listing \<^verbatim>\<open>os.walk\<close> took before the manifest was
  loaded. First block: a directory that had no manifest gets its name and its targets.\<close>

definition init_manifest :: "string \<Rightarrow> string list \<Rightarrow> string list \<Rightarrow> json \<Rightarrow> err + json" where
  "init_manifest root dirs files meta_json =
     (if ''meta.json'' \<notin> set files then
        and_then (setitem meta_json ''selfDirName'' (JStr root)) (\<lambda>m.
        setitem m ''metaTargets'' (JArr (map meta_target dirs)))
      else Inr meta_json)"

text \<open>Second block: the link to a \<^verbatim>\<open>buildInfo.json\<close> of the directory.\<close>

definition link_build_info :: "string list \<Rightarrow> json \<Rightarrow> err + json" where
  "link_build_info files meta_json =
     (if ''buildInfo.json'' \<in> set files then
        and_then (contains meta_json ''files'') (\<lambda>has_files.
        and_then (if \<not> has_files then setitem meta_json ''files'' (JObj [])
                  else Inr meta_json) (\<lambda>m.
        and_then (getitem m ''files'') (\<lambda>fs.
        and_then (setitem fs ''buildInfo'' (JStr ''buildInfo.json'')) (\<lambda>fs'.
        setitem m ''files'' fs'))))
      else Inr meta_json)"

text \<open>Third block: the version loop.\<close>

definition meta_all_body :: "string \<Rightarrow> string list \<Rightarrow> string list \<Rightarrow> json \<Rightarrow> err + json" where
  "meta_all_body root dirs files meta_json =
     and_then (init_manifest root dirs files meta_json) (\<lambda>m1.
     and_then (link_build_info files m1) (\<lambda>m2.
     scan_versions files m2))"

definition meta_all_visit ::
  "string \<Rightarrow> string list \<Rightarrow> (string \<times> content) list
     \<Rightarrow> (string \<times> content) list \<times> err option" where
  "meta_all_visit root dirs files =
     (case load_json_file ''meta.json'' META_TEMPLATE dirs files of
        (files1, Inl e) \<Rightarrow> (files1, Some e)
      | (files1, Inr meta_json) \<Rightarrow>
          (case meta_all_body root dirs (map fst files) meta_json of
             Inl e \<Rightarrow> (files1, Some e)
           | Inr m \<Rightarrow> save_json_file ''meta.json'' m dirs files1))"

text \<open>\<^verbatim>\<open>create_meta_files_all(meta_release_dir)\<close> on the tree of \<^verbatim>\<open>meta_release_dir\<close>,
  whose base name is \<^verbatim>\<open>root\<close>.\<close>

definition create_meta_files_all ::
  "(string \<Rightarrow> err + timestamp) \<Rightarrow> (string \<Rightarrow> err + json) \<Rightarrow> (string \<times> string) list
     \<Rightarrow> string \<Rightarrow> dir \<Rightarrow> dir \<times> err option" where
  "create_meta_files_all parse loads environ root d =
     (case generate_build_info_file parse loads environ ''buildInfo.json''
             (map fst (dsubs d)) (dfiles d) of
        (files1, Some e) \<Rightarrow> (Dir files1 (dsubs d), Some e)
      | (files1, None) \<Rightarrow> os_walk meta_all_visit root (Dir files1 (dsubs d)))"

section \<open>The full-rebuild variant\<close>

definition ends_with :: "string \<Rightarrow> string \<Rightarrow> bool" where
  "ends_with s suffix = starts_with (rev s) (rev suffix)"

text \<open>The first loop of \<^verbatim>\<open>create_meta_json\<close>. The \<^verbatim>\<open>break\<close> is inside the test for
  \<^verbatim>\<open>.hex\<close>: a file with another ending is passed over and the loop goes on.\<close>

fun hex_version_loop :: "string list \<Rightarrow> json \<Rightarrow> err + json" where
  "hex_version_loop [] meta = Inr meta"
| "hex_version_loop (file # files) meta =
     (if ends_with file ''.hex'' then
        (case re_search_version file of
           None \<Rightarrow> Inr meta
         | Some groups \<Rightarrow> setitem meta ''versionInfo'' (version_info groups))
      else hex_version_loop files meta)"

text \<open>\<^verbatim>\<open>xs.append(x)\<close>: only a list has it.\<close>

definition append_item :: "json \<Rightarrow> json \<Rightarrow> err + json" where
  "append_item xs x = (case xs of JArr l \<Rightarrow> Inr (JArr (l @ [x])) | _ \<Rightarrow> Inl AttributeError)"

fun targets_loop :: "string list \<Rightarrow> json \<Rightarrow> err + json" where
  "targets_loop [] meta = Inr meta"
| "targets_loop (directory # dirs) meta =
     and_then (getitem meta ''metaTargets'') (\<lambda>ts.
     and_then (append_item ts (JObj [(''targetName'', JStr directory),
                 (''metaInformationFile'', JStr (directory @ ''/meta.json''))])) (\<lambda>ts'.
     and_then (setitem meta ''metaTargets'' ts') (\<lambda>meta'.
     targets_loop dirs meta')))"

fun files_loop :: "string list \<Rightarrow> json \<Rightarrow> err + json" where
  "files_loop [] meta = Inr meta"
| "files_loop (file # files) meta =
     (if file \<noteq> ''meta.json'' then
        and_then (getitem meta ''files'') (\<lambda>fs.
        and_then (setitem fs file (JStr file)) (\<lambda>fs'.
        and_then (setitem meta ''files'' fs') (\<lambda>meta'.
        files_loop files meta')))
      else files_loop files meta)"

text \<open>The manifest \<^verbatim>\<open>create_meta_json\<close> builds for one directory.\<close>

definition create_meta_json_body :: "string \<Rightarrow> string list \<Rightarrow> string list \<Rightarrow> err + json" where
  "create_meta_json_body root dirs files =
     and_then (hex_version_loop files (JObj
                 [(''self'', JStr ''meta.json''),
                  (''selfDirName'', JStr root),
                  (''metaTargets'', JArr []),
                  (''files'', JObj []),
                  (''versionInfo'', JObj [])])) (\<lambda>m1.
     and_then (targets_loop dirs m1) (\<lambda>m2.
     files_loop files m2))"

definition create_meta_json_visit ::
  "string \<Rightarrow> string list \<Rightarrow> (string \<times> content) list
     \<Rightarrow> (string \<times> content) list \<times> err option" where
  "create_meta_json_visit root dirs files =
     (case create_meta_json_body root dirs (map fst files) of
        Inl e \<Rightarrow> (files, Some e)
      | Inr meta \<Rightarrow> write_file ''meta.json'' (Json meta) dirs files)"

definition create_meta_json :: "string \<Rightarrow> dir \<Rightarrow> dir \<times> err option" where
  "create_meta_json root d = os_walk create_meta_json_visit root d"

section \<open>Key canonicalization\<close>

text \<open>
  \<^verbatim>\<open>re.match(pattern, s) is not None\<close> is the parameter \<^verbatim>\<open>re_match\<close>: the regular
  expression engine is a library, and the patterns of a routing specification are taken
  to be valid regular expressions.
\<close>

definition updated_key ::
  "(string \<Rightarrow> string \<Rightarrow> bool) \<Rightarrow> (string \<times> string list) list \<Rightarrow> string \<Rightarrow> string" where
  "updated_key re_match regex_mappings old_key =
     (case find (\<lambda>(key, vals). list_ex (\<lambda>pattern. re_match pattern old_key) vals)
                regex_mappings of
        Some (key, vals) \<Rightarrow> key
      | None \<Rightarrow> old_key)"

text \<open>The loop over \<^verbatim>\<open>meta_data["files"].items()\<close>, filling \<^verbatim>\<open>updated_files\<close>.\<close>

fun rewrite_keys ::
  "(string \<Rightarrow> string \<Rightarrow> bool) \<Rightarrow> (string \<times> string list) list \<Rightarrow> (string \<times> json) list
     \<Rightarrow> (string \<times> json) list \<Rightarrow> (string \<times> json) list" where
  "rewrite_keys re_match regex_mappings [] updated_files = updated_files"
| "rewrite_keys re_match regex_mappings ((old_key, val) # rest) updated_files =
     rewrite_keys re_match regex_mappings rest
       (dict_set (updated_key re_match regex_mappings old_key) val updated_files)"

text \<open>\<^verbatim>\<open>d.items()\<close>: only a dict has it.\<close>

definition items :: "json \<Rightarrow> err + (string \<times> json) list" where
  "items d = (case d of JObj al \<Rightarrow> Inr al | _ \<Rightarrow> Inl AttributeError)"

text \<open>What \<^verbatim>\<open>update_meta_file_keys\<close> does with one loaded manifest: the document to
  write back, or nothing to write when it has no \<^verbatim>\<open>files\<close>.\<close>

definition update_keys_body ::
  "(string \<Rightarrow> string \<Rightarrow> bool) \<Rightarrow> (string \<times> string list) list \<Rightarrow> json
     \<Rightarrow> err + json option" where
  "update_keys_body re_match regex_mappings meta_data =
     and_then (contains meta_data ''files'') (\<lambda>has_files.
       if has_files then
         and_then (getitem meta_data ''files'') (\<lambda>fs.
         and_then (items fs) (\<lambda>al.
         and_then (setitem meta_data ''files''
                     (JObj (rewrite_keys re_match regex_mappings al []))) (\<lambda>m.
         Inr (Some m))))
       else Inr None)"

definition update_keys_file ::
  "(string \<Rightarrow> string \<Rightarrow> bool) \<Rightarrow> (string \<times> string list) list \<Rightarrow> string list
     \<Rightarrow> (string \<times> content) list \<Rightarrow> (string \<times> content) list \<times> err option" where
  "update_keys_file re_match regex_mappings dirs files =
     (case map_of files ''meta.json'' of
        None \<Rightarrow> (files, Some FileNotFoundError)
      | Some Other \<Rightarrow> (files, Some JSONDecodeError)
      | Some (Json meta_data) \<Rightarrow>
          (case update_keys_body re_match regex_mappings meta_data of
             Inl e \<Rightarrow> (files, Some e)
           | Inr None \<Rightarrow> (files, None)
           | Inr (Some m) \<Rightarrow> write_file ''meta.json'' (Json m) dirs files))"

text \<open>The loop \<^verbatim>\<open>for filename in files\<close> of one directory.\<close>

fun update_keys_loop ::
  "(string \<Rightarrow> string \<Rightarrow> bool) \<Rightarrow> (string \<times> string list) list \<Rightarrow> string list
     \<Rightarrow> string list \<Rightarrow> (string \<times> content) list
     \<Rightarrow> (string \<times> content) list \<times> err option" where
  "update_keys_loop re_match regex_mappings dirs [] files = (files, None)"
| "update_keys_loop re_match regex_mappings dirs (filename # rest) files =
     (if filename = ''meta.json'' then
        (case update_keys_file re_match regex_mappings dirs files of
           (files', Some e) \<Rightarrow> (files', Some e)
         | (files', None) \<Rightarrow> update_keys_loop re_match regex_mappings dirs rest files')
      else update_keys_loop re_match regex_mappings dirs rest files)"

definition update_meta_file_keys ::
  "(string \<Rightarrow> string \<Rightarrow> bool) \<Rightarrow> (string \<times> string list) list \<Rightarrow> string \<Rightarrow> dir
     \<Rightarrow> dir \<times> err option" where
  "update_meta_file_keys re_match regex_mappings root d =
     os_walk (\<lambda>r dirs files.
        update_keys_loop re_match regex_mappings dirs (map fst files) files) root d"

section \<open>The rule-tree router\<close>

text \<open>
  A node of the routing specification: the pattern mapping under the reserved key
  \<^verbatim>\<open>"files"\<close>, when the node has that key, and the sub-folders under the other keys, in
  the order of the JSON object.
\<close>

datatype rnode = RNode (rfiles: "(string \<times> string) list option") (rsubs: "(string \<times> rnode) list")

text \<open>\<^verbatim>\<open>os.listdir\<close>. The order is the platform's; the model lists files first.\<close>

definition listdir :: "dir \<Rightarrow> string list" where
  "listdir d = map fst (dfiles d) @ map fst (dsubs d)"

text \<open>
  Paths relative to the working directory, as the list of their components. A folder
  name of the specification is one component: it has no separator and is not \<^verbatim>\<open>.\<close> or
  \<^verbatim>\<open>..\<close>, but it may be empty. \<^verbatim>\<open>os.path.join(folder, subfolder)\<close> drops an empty
  \<^verbatim>\<open>folder\<close>, and an empty \<^verbatim>\<open>subfolder\<close> leaves the separator at the end of the path,
  which is a last empty component here. The path of one empty component is the empty
  string.
\<close>

definition os_path_join :: "string \<Rightarrow> string \<Rightarrow> string list" where
  "os_path_join folder subfolder = (if folder = [] then [subfolder] else [folder, subfolder])"

text \<open>\<^verbatim>\<open>os.path.exists\<close>: the empty string names nothing, and a path that ends with the
  separator names a directory only.\<close>

fun path_exists :: "dir \<Rightarrow> string list \<Rightarrow> bool" where
  "path_exists d [] = True"
| "path_exists d [n] = (n \<noteq> [] \<and> n \<in> set (listdir d))"
| "path_exists d (n # m # p) =
     (case map_of (dsubs d) n of
        None \<Rightarrow> False
      | Some s \<Rightarrow> (m = [] \<and> p = []) \<or> path_exists s (m # p))"

text \<open>\<^verbatim>\<open>os.makedirs\<close> without \<^verbatim>\<open>exist_ok\<close>: the directories on the way are created when
  they are missing, the last one must be missing, and a file on the way is an error. It
  takes a separator at the end of the path off first, and \<^verbatim>\<open>mkdir\<close> refuses the empty
  string.\<close>

definition strip_separator :: "string list \<Rightarrow> string list" where
  "strip_separator p = (if 2 \<le> length p \<and> last p = [] then butlast p else p)"

fun makedirs_at :: "string list \<Rightarrow> dir \<Rightarrow> err + dir" where
  "makedirs_at [] d = Inl FileExistsError"
| "makedirs_at (n # p) d =
     (if n = [] then Inl FileNotFoundError
      else if n \<in> fst ` set (dfiles d) then
        Inl (if p = [] then FileExistsError else NotADirectoryError)
      else
        (case map_of (dsubs d) n of
           Some s \<Rightarrow>
             (case makedirs_at p s of
                Inl e \<Rightarrow> Inl e
              | Inr s' \<Rightarrow> Inr (Dir (dfiles d) (dict_set n s' (dsubs d))))
         | None \<Rightarrow>
             (case (if p = [] then Inr (Dir [] []) else makedirs_at p (Dir [] [])) of
                Inl e \<Rightarrow> Inl e
              | Inr s' \<Rightarrow> Inr (Dir (dfiles d) (dsubs d @ [(n, s')])))))"

definition makedirs :: "string list \<Rightarrow> dir \<Rightarrow> err + dir" where
  "makedirs p d = makedirs_at (strip_separator p) d"

text \<open>A loop whose body may raise: the first exception ends it, and the state stays as
  it is at that moment.\<close>

fun for_each :: "('a \<Rightarrow> 's \<Rightarrow> 's \<times> err option) \<Rightarrow> 'a list \<Rightarrow> 's \<Rightarrow> 's \<times> err option" where
  "for_each body [] s = (s, None)"
| "for_each body (x # xs) s =
     (case body x s of
        (s', Some e) \<Rightarrow> (s', Some e)
      | (s', None) \<Rightarrow> for_each body xs s')"

definition create_subfolder :: "string \<Rightarrow> string \<Rightarrow> dir \<Rightarrow> dir \<times> err option" where
  "create_subfolder folder subfolder cwd =
     (if subfolder \<noteq> ''files'' then
        (if \<not> path_exists cwd (os_path_join folder subfolder) then
           (case makedirs (os_path_join folder subfolder) cwd of
              Inl e \<Rightarrow> (cwd, Some e)
            | Inr cwd' \<Rightarrow> (cwd', None))
         else (cwd, None))
      else (cwd, None))"

text \<open>The body of the outer loop of \<^verbatim>\<open>create_folders\<close>: the loop over the sub-folders
  is inside the branch that has just created the folder.\<close>

definition create_folder :: "string \<times> rnode \<Rightarrow> dir \<Rightarrow> dir \<times> err option" where
  "create_folder entry cwd =
     (case entry of (folder, node) \<Rightarrow>
        if folder \<noteq> ''files'' then
          (if \<not> path_exists cwd [folder] then
             (case makedirs [folder] cwd of
                Inl e \<Rightarrow> (cwd, Some e)
              | Inr cwd' \<Rightarrow>
                  for_each (create_subfolder folder) (map fst (rsubs node)) cwd')
           else (cwd, None))
        else (cwd, None))"

definition create_folders :: "rnode \<Rightarrow> dir \<Rightarrow> dir \<times> err option" where
  "create_folders folder_structure cwd =
     for_each create_folder (rsubs folder_structure) cwd"

text \<open>
  \<^verbatim>\<open>os.rename(file, os.path.join(folder, file))\<close> and
  \<^verbatim>\<open>os.rename(file, os.path.join(folder, subfolder, file))\<close> for a name \<^verbatim>\<open>file\<close> of the
  listing, with the rules of the POSIX \<^verbatim>\<open>rename\<close>. \<^verbatim>\<open>os.path.join\<close> drops the empty
  folder names. The folders of the destination are looked up first: a missing one is
  \<^verbatim>\<open>FileNotFoundError\<close>, a file in the place of one \<^verbatim>\<open>NotADirectoryError\<close>. Then the
  source must be there. A path that joins to \<^verbatim>\<open>file\<close> itself changes nothing, and a
  directory does not go below itself. At the destination a file replaces a file of its
  name and a directory an empty directory of its name; a file on a directory, a
  directory on a file and a directory on a directory that is not empty are errors.
\<close>

datatype entry = FileEntry content | DirEntry dir

definition take_entry :: "string \<Rightarrow> dir \<Rightarrow> (entry \<times> dir) option" where
  "take_entry name d =
     (case map_of (dfiles d) name of
        Some c \<Rightarrow> Some (FileEntry c, Dir (filter (\<lambda>e. fst e \<noteq> name) (dfiles d)) (dsubs d))
      | None \<Rightarrow>
          (case map_of (dsubs d) name of
             Some s \<Rightarrow> Some (DirEntry s, Dir (dfiles d) (filter (\<lambda>e. fst e \<noteq> name) (dsubs d)))
           | None \<Rightarrow> None))"

fun resolve_dir :: "string list \<Rightarrow> dir \<Rightarrow> err + dir" where
  "resolve_dir [] d = Inr d"
| "resolve_dir (n # p) d =
     (case map_of (dsubs d) n of
        Some s \<Rightarrow> resolve_dir p s
      | None \<Rightarrow>
          Inl (if n \<in> fst ` set (dfiles d) then NotADirectoryError else FileNotFoundError))"

definition replace_error :: "string \<Rightarrow> entry \<Rightarrow> dir \<Rightarrow> err option" where
  "replace_error name e d =
     (case e of
        FileEntry c \<Rightarrow>
          (if name \<in> fst ` set (dsubs d) then Some IsADirectoryError else None)
      | DirEntry s \<Rightarrow>
          (if name \<in> fst ` set (dfiles d) then Some NotADirectoryError
           else
             (case map_of (dsubs d) name of
                None \<Rightarrow> None
              | Some old \<Rightarrow>
                  if dfiles old = [] \<and> dsubs old = [] then None else Some OSError)))"

definition remove_entry :: "string \<Rightarrow> dir \<Rightarrow> dir" where
  "remove_entry name d =
     Dir (filter (\<lambda>e. fst e \<noteq> name) (dfiles d)) (filter (\<lambda>e. fst e \<noteq> name) (dsubs d))"

definition add_entry :: "string \<Rightarrow> entry \<Rightarrow> dir \<Rightarrow> dir" where
  "add_entry name e d =
     (case e of
        FileEntry c \<Rightarrow> Dir (dfiles d @ [(name, c)]) (dsubs d)
      | DirEntry s \<Rightarrow> Dir (dfiles d) (dsubs d @ [(name, s)]))"

fun put_entry :: "string list \<Rightarrow> string \<Rightarrow> entry \<Rightarrow> dir \<Rightarrow> err + dir" where
  "put_entry [] name e d =
     (case replace_error name e d of
        Some x \<Rightarrow> Inl x
      | None \<Rightarrow> Inr (add_entry name e (remove_entry name d)))"
| "put_entry (n # p) name e d =
     (case map_of (dsubs d) n of
        Some s \<Rightarrow>
          (case put_entry p name e s of
             Inl x \<Rightarrow> Inl x
           | Inr s' \<Rightarrow> Inr (Dir (dfiles d) (dict_set n s' (dsubs d))))
      | None \<Rightarrow>
          Inl (if n \<in> fst ` set (dfiles d) then NotADirectoryError else FileNotFoundError))"

definition rename_into :: "string \<Rightarrow> string list \<Rightarrow> dir \<Rightarrow> dir \<times> err option" where
  "rename_into file dest cwd =
     (let folders = filter (\<lambda>n. n \<noteq> []) dest in
      case resolve_dir folders cwd of
        Inl x \<Rightarrow> (cwd, Some x)
      | Inr target \<Rightarrow>
          (case take_entry file cwd of
             None \<Rightarrow> (cwd, Some FileNotFoundError)
           | Some (e, cwd') \<Rightarrow>
               if folders = [] then (cwd, None)
               else if (case e of DirEntry s \<Rightarrow> hd folders = file | FileEntry c \<Rightarrow> False)
               then (cwd, Some OSError)
               else
                 (case put_entry folders file e cwd' of
                    Inl x \<Rightarrow> (cwd, Some x)
                  | Inr cwd'' \<Rightarrow> (cwd'', None))))"

text \<open>The loop over one pattern mapping: every pattern that matches renames; there is
  no exit after a match.\<close>

definition move_by_patterns ::
  "(string \<Rightarrow> string \<Rightarrow> bool) \<Rightarrow> string \<Rightarrow> string list \<Rightarrow> (string \<times> string) list
     \<Rightarrow> dir \<Rightarrow> dir \<times> err option" where
  "move_by_patterns re_match file dest patterns cwd =
     for_each (\<lambda>(k, regex) c.
        if re_match regex file then rename_into file dest c else (c, None)) patterns cwd"

text \<open>The body of \<^verbatim>\<open>for subfolder in patterns\<close>; a sub-folder without the key
  \<^verbatim>\<open>"files"\<close> raises \<^verbatim>\<open>KeyError\<close>.\<close>

definition move_in_subfolder ::
  "(string \<Rightarrow> string \<Rightarrow> bool) \<Rightarrow> string \<Rightarrow> string \<Rightarrow> rnode \<Rightarrow> string \<times> rnode
     \<Rightarrow> dir \<Rightarrow> dir \<times> err option" where
  "move_in_subfolder re_match file folder patterns entry cwd =
     (case entry of (subfolder, sub) \<Rightarrow>
        if subfolder \<noteq> ''files'' \<and> subfolder \<in> fst ` set (rsubs patterns) then
          (case rfiles sub of
             None \<Rightarrow> (cwd, Some KeyError)
           | Some ps \<Rightarrow> move_by_patterns re_match file [folder, subfolder] ps cwd)
        else (cwd, None))"

text \<open>The body of \<^verbatim>\<open>for folder, patterns in folder_structure.items()\<close>.\<close>

definition move_in_folder ::
  "(string \<Rightarrow> string \<Rightarrow> bool) \<Rightarrow> string \<Rightarrow> string \<times> rnode \<Rightarrow> dir \<Rightarrow> dir \<times> err option" where
  "move_in_folder re_match file entry cwd =
     (case entry of (folder, patterns) \<Rightarrow>
        if folder \<noteq> ''files'' then
          (case (case rfiles patterns of
                   Some ps \<Rightarrow> move_by_patterns re_match file [folder] ps cwd
                 | None \<Rightarrow> (cwd, None)) of
             (cwd1, Some e) \<Rightarrow> (cwd1, Some e)
           | (cwd1, None) \<Rightarrow>
               for_each (move_in_subfolder re_match file folder patterns) (rsubs patterns) cwd1)
        else (cwd, None))"

definition move_file ::
  "(string \<Rightarrow> string \<Rightarrow> bool) \<Rightarrow> rnode \<Rightarrow> string \<Rightarrow> dir \<Rightarrow> dir \<times> err option" where
  "move_file re_match folder_structure file cwd =
     for_each (move_in_folder re_match file) (rsubs folder_structure) cwd"

definition move_files :: "(string \<Rightarrow> string \<Rightarrow> bool) \<Rightarrow> rnode \<Rightarrow> dir \<Rightarrow> dir \<times> err option" where
  "move_files re_match folder_structure cwd =
     for_each (move_file re_match folder_structure) (listdir cwd) cwd"

section \<open>Inputs of the examples\<close>

text \<open>
  A matcher for the patterns of the examples: an optional leading \<^verbatim>\<open>^\<close>, then literal
  characters and \<^verbatim>\<open>.\<close>, each optionally followed by \<^verbatim>\<open>*\<close>. On such a pattern it says
  whether \<^verbatim>\<open>re.match\<close> finds a match at the start of the string.
\<close>

datatype ratom = RChar char | RAny

definition atom_of :: "char \<Rightarrow> ratom" where
  "atom_of c = (if c = CHR ''.'' then RAny else RChar c)"

definition atom_ok :: "ratom \<Rightarrow> char \<Rightarrow> bool" where
  "atom_ok a c = (case a of RAny \<Rightarrow> c \<noteq> CHR 0x0A | RChar x \<Rightarrow> c = x)"

fun parse_regex :: "string \<Rightarrow> (ratom \<times> bool) list" where
  "parse_regex [] = []"
| "parse_regex [c] = [(atom_of c, False)]"
| "parse_regex (c # d # rest) =
     (if d = CHR ''*'' then (atom_of c, True) # parse_regex rest
      else (atom_of c, False) # parse_regex (d # rest))"

fun match_items :: "(ratom \<times> bool) list \<Rightarrow> string \<Rightarrow> bool" where
  "match_items [] s = True"
| "match_items ((a, False) # rest) [] = False"
| "match_items ((a, False) # rest) (c # cs) = (atom_ok a c \<and> match_items rest cs)"
| "match_items ((a, True) # rest) [] = match_items rest []"
| "match_items ((a, True) # rest) (c # cs) =
     ((atom_ok a c \<and> match_items ((a, True) # rest) cs) \<or> match_items rest (c # cs))"

definition simple_re_match :: "string \<Rightarrow> string \<Rightarrow> bool" where
  "simple_re_match pattern s =
     (case pattern of
        [] \<Rightarrow> True
      | c # p \<Rightarrow> if c = CHR ''^'' then match_items (parse_regex p) s
                 else match_items (parse_regex (c # p)) s)"

text \<open>A parser that knows one timestamp and rejects everything else, the empty string
  included, and a JSON reader that knows the empty object.\<close>

definition example_parse :: "string \<Rightarrow> err + timestamp" where
  "example_parse s =
     (if s = ''2024-01-02T03:04:05'' then
        Inr \<lparr>ts_iso = ''2024-01-02T03:04:05+00:00'', ts_year = 2024, ts_month = 1,
             ts_day = 2, ts_hour = 3, ts_minute = 4, ts_second = 5\<rparr>
      else Inl ParserError)"

definition example_loads :: "string \<Rightarrow> err + json" where
  "example_loads s = (if s = ''{}'' then Inr (JObj []) else Inl JSONDecodeError)"

definition example_environ :: "(string \<times> string) list" where
  "example_environ =
     [(''BUILD_TIMESTAMP'', ''2024-01-02T03:04:05''), (''GIT_INFO_unused_my_repo'', ''{}'')]"

text \<open>A release directory with two versioned files at the top and two in a
  sub-directory, and a directory that was renamed after its manifest was written.\<close>

definition example_release :: dir where
  "example_release =
     Dir [(''fw-1.2.3.4.hex'', Other), (''fw-5.6.7.8.hex'', Other)]
         [(''sub'', Dir [(''app-0.9.0.1.bin'', Other), (''app-0.10.0.2.bin'', Other)] [])]"

definition example_renamed :: dir where
  "example_renamed =
     Dir [] [(''new_name'',
               Dir [(''meta.json'', Json (JObj [(''selfDirName'', JStr ''old_name''),
                                                 (''files'', JObj [])]))] [])]"

text \<open>A tree for the full-rebuild variant: a sub-directory with a stale manifest, a
  \<^verbatim>\<open>.hex\<close> file without a version before one with a version, and a directory below.\<close>

definition example_rebuild :: dir where
  "example_rebuild =
     Dir [(''readme.txt'', Other), (''fw-1.2.3.4.hex'', Other)]
         [(''sub'', Dir [(''notes.txt'', Other), (''meta.json'', Json (JStr ''stale'')),
                         (''a.hex'', Other), (''fw-1.2.3.4.hex'', Other)]
                        [(''deep'', Dir [] [])])]"

text \<open>A regex mapping with an overlap, and a tree whose directory \<^verbatim>\<open>a\<close> has a manifest
  that lists three files under their names.\<close>

definition example_mappings :: "(string \<times> string list) list" where
  "example_mappings = [(''k1'', [''^x.*'']), (''k2'', [''^y.*'', ''^x.*''])]"

definition example_keys :: dir where
  "example_keys =
     Dir [] [(''a'',
        Dir [(''meta.json'', Json (JObj
               [(''self'', JStr ''meta.json''),
                (''files'', JObj [(''x1.txt'', JStr ''x1.txt''), (''y1.txt'', JStr ''y1.txt''),
                                  (''z1.txt'', JStr ''z1.txt'')])]))] [])]"

text \<open>The routing specification and the working directory of the router example, after
  \<^verbatim>\<open>create_folders\<close>; a specification whose two folders both claim the names that start
  with \<^verbatim>\<open>x\<close>; one whose only folder claims \<^verbatim>\<open>x1.txt\<close> with two patterns; and a
  specification with a nested folder.\<close>

definition example_spec :: rnode where
  "example_spec = RNode None
     [(''a'', RNode (Some [(''k1'', ''^x.*'')]) []),
      (''b'', RNode (Some [(''k2'', ''^y.*'')]) [])]"

definition example_cwd :: dir where
  "example_cwd =
     Dir [(''x1.txt'', Other), (''y1.txt'', Other), (''z1.txt'', Other)]
         [(''a'', Dir [] []), (''b'', Dir [] [])]"

definition example_overlap :: rnode where
  "example_overlap = RNode None
     [(''a'', RNode (Some [(''k1'', ''^x.*'')]) []),
      (''b'', RNode (Some [(''k2'', ''^x.*'')]) [])]"

definition example_twice :: rnode where
  "example_twice = RNode None
     [(''a'', RNode (Some [(''k1'', ''^x.*''), (''k2'', ''^x1.*'')]) [])]"

definition example_nested :: rnode where
  "example_nested = RNode None [(''a'', RNode None [(''sub'', RNode (Some []) [])])]"

section \<open>Repository names\<close>

lemma split_max_zero: "split_max sep 0 s = [s]"
  by (induction s) auto

lemma split_max_git_info:
  "split_max CHR ''_'' 2 (''GIT_INFO_'' @ rest) = [''GIT'', ''INFO'', rest]"
  by (simp add: split_max_zero)

lemma split_on_not_Nil: "split_on sep s \<noteq> []"
  by (induction s) (auto split: list.splits)

lemma camel_case_not_Nil: "camel_case s \<noteq> []"
proof -
  obtain p ps where "split_on CHR ''_'' s = p # ps"
    using split_on_not_Nil [of "CHR ''_''" s] by (cases "split_on CHR ''_'' s") auto
  then show ?thesis by (simp add: camel_case_def)
qed

text \<open>
  C3, as the specification states it, fails: the prefix is not stripped and there is no
  unused segment after it. \<^verbatim>\<open>GIT_INFO_unused_my_repo\<close> is split at its first two
  underscores into \<^verbatim>\<open>GIT\<close>, \<^verbatim>\<open>INFO\<close> and \<^verbatim>\<open>unused_my_repo\<close>, and the key stored in
  \<^verbatim>\<open>versionControlSystem.repositories\<close> is \<^verbatim>\<open>unusedMyRepo\<close>, not \<^verbatim>\<open>myRepo\<close>.
\<close>

theorem repo_name_unused_counterexample:
  "get_repo_name ''GIT_INFO_unused_my_repo'' = Inr ''unusedMyRepo''
   \<and> get_repo_name ''GIT_INFO_unused_my_repo'' \<noteq> Inr ''myRepo''
   \<and> and_then (build_info_body example_parse example_loads example_environ BUILD_INFO_TEMPLATE)
        (\<lambda>b. and_then (getitem b ''versionControlSystem'') (\<lambda>v. getitem v ''repositories''))
     = Inr (JObj [(''unusedMyRepo'', JObj [])])"
  by code_simp

text \<open>
  C3, amended: the whole name of a variable that starts with \<^verbatim>\<open>GIT_INFO_\<close> is split at
  its first two underscores, and everything after the second one is camel-cased, first
  letter lowered, to form the key; the derivation never fails on such a name. So
  \<^verbatim>\<open>GIT_INFO_unused_my_repo\<close> yields \<^verbatim>\<open>unusedMyRepo\<close>, and \<^verbatim>\<open>GIT_INFO_my_repo\<close> yields
  \<^verbatim>\<open>myRepo\<close>.
\<close>

theorem repo_name_is_camel_cased_remainder:
  "(\<exists>c cs. camel_case rest = c # cs
      \<and> get_repo_name (''GIT_INFO_'' @ rest) = Inr (lower_char c # cs))
   \<and> get_repo_name ''GIT_INFO_unused_my_repo'' = Inr ''unusedMyRepo''
   \<and> get_repo_name ''GIT_INFO_my_repo'' = Inr ''myRepo''
   \<and> and_then (build_info_body example_parse example_loads example_environ BUILD_INFO_TEMPLATE)
        (\<lambda>b. and_then (getitem b ''versionControlSystem'') (\<lambda>v. getitem v ''repositories''))
     = Inr (JObj [(''unusedMyRepo'', JObj [])])"
proof -
  obtain c cs where "camel_case rest = c # cs"
    using camel_case_not_Nil [of rest] by (cases "camel_case rest") auto
  then have "\<exists>c cs. camel_case rest = c # cs
      \<and> get_repo_name (''GIT_INFO_'' @ rest) = Inr (lower_char c # cs)"
    unfolding get_repo_name_def split_max_git_info by simp
  moreover have "get_repo_name ''GIT_INFO_unused_my_repo'' = Inr ''unusedMyRepo''"
    by code_simp
  moreover have "get_repo_name ''GIT_INFO_my_repo'' = Inr ''myRepo''"
    by code_simp
  moreover have
    "and_then (build_info_body example_parse example_loads example_environ BUILD_INFO_TEMPLATE)
        (\<lambda>b. and_then (getitem b ''versionControlSystem'') (\<lambda>v. getitem v ''repositories''))
     = Inr (JObj [(''unusedMyRepo'', JObj [])])"
    by code_simp
  ultimately show ?thesis by blast
qed

section \<open>Facts about dictionaries and documents\<close>

lemma map_of_dict_set: "map_of (dict_set k v al) = (map_of al)(k \<mapsto> v)"
  by (induction al) (auto simp: fun_eq_iff)

lemma dict_set_same: "map_of al k = Some v \<Longrightarrow> dict_set k v al = al"
  by (induction al) (auto split: if_splits)

lemma dict_set_twice: "dict_set k v (dict_set k w al) = dict_set k v al"
  by (induction al) auto

lemma names_dict_set:
  "map fst (dict_set k v al) = (if k \<in> set (map fst al) then map fst al else map fst al @ [k])"
  by (induction al) (auto split: if_splits)

lemma keys_dict_set: "fst ` set (dict_set k v al) = insert k (fst ` set al)"
proof -
  have "set (map fst (dict_set k v al)) = insert k (set (map fst al))"
    unfolding names_dict_set by auto
  then show ?thesis by simp
qed

lemma dict_set_new: "k \<notin> set (map fst al) \<Longrightarrow> dict_set k v al = al @ [(k, v)]"
  by (induction al) auto

lemma distinct_dict_set: "distinct (map fst al) \<Longrightarrow> distinct (map fst (dict_set k v al))"
  by (auto simp: names_dict_set)

lemma map_of_None_keys: "map_of al k = None \<longleftrightarrow> k \<notin> set (map fst al)"
  by (simp add: map_of_eq_None_iff)

lemma getitem_JObj: "getitem (JObj al) k = (case map_of al k of None \<Rightarrow> Inl KeyError | Some v \<Rightarrow> Inr v)"
  by (simp add: getitem_def)

lemma setitem_JObj: "setitem (JObj al) k v = Inr (JObj (dict_set k v al))"
  by (simp add: setitem_def)

lemma setitem_Inr: "setitem d k v = Inr d' \<Longrightarrow> \<exists>al. d = JObj al \<and> d' = JObj (dict_set k v al)"
  by (cases d) (auto simp: setitem_def)

lemma getitem_Inr: "getitem d k = Inr v \<Longrightarrow> \<exists>al. d = JObj al \<and> map_of al k = Some v"
  by (cases d) (auto simp: getitem_def split: option.splits)

lemma and_then_Inr: "and_then r f = Inr y \<longleftrightarrow> (\<exists>x. r = Inr x \<and> f x = Inr y)"
  by (cases r) (auto simp: and_then_def)

lemma and_then_simps [simp]: "and_then (Inr x) f = f x" "and_then (Inl e) f = Inl e"
  by (simp_all add: and_then_def)

lemma map_of_Some_key: "map_of al k = Some v \<Longrightarrow> k \<in> fst ` set al"
  by (force dest: map_of_SomeD)

lemma getitem_dict_set_other:
  "k \<noteq> k' \<Longrightarrow> getitem (JObj (dict_set k' v l)) k = getitem (JObj l) k"
  by (simp add: getitem_JObj map_of_dict_set)

section \<open>Facts about the walk\<close>

lemma os_walk_subs_names:
  "os_walk_subs body subs = (subs', r) \<Longrightarrow> map fst subs' = map fst subs"
proof (induction subs arbitrary: subs' r)
  case Nil
  then show ?case by simp
next
  case (Cons a subs)
  obtain name d where a: "a = (name, d)" by (cases a)
  obtain d' r1 where w: "os_walk body name d = (d', r1)" by (cases "os_walk body name d")
  show ?case
  proof (cases r1)
    case (Some e)
    with Cons.prems a w show ?thesis by auto
  next
    case None
    obtain rest' r2 where ws: "os_walk_subs body subs = (rest', r2)"
      by (cases "os_walk_subs body subs")
    with Cons.prems a w None have "subs' = (name, d') # rest'" by simp
    with Cons.IH [OF ws] a show ?thesis by simp
  qed
qed

lemma os_walk_top:
  assumes "os_walk body root d = (d', None)"
  shows "body root (map fst (dsubs d)) (dfiles d) = (dfiles d', None)
         \<and> map fst (dsubs d') = map fst (dsubs d)
         \<and> os_walk_subs body (dsubs d) = (dsubs d', None)"
proof -
  obtain files subs where d: "d = Dir files subs" by (cases d)
  obtain files' r where b: "body root (map fst subs) files = (files', r)"
    by (cases "body root (map fst subs) files")
  obtain subs' r2 where ws: "os_walk_subs body subs = (subs', r2)"
    by (cases "os_walk_subs body subs")
  from assms d b have r: "r = None" by (cases r) auto
  with assms d b ws have "d' = Dir files' subs'" and "r2 = None" by auto
  with b r ws d os_walk_subs_names [OF ws] show ?thesis by simp
qed

lemma os_walk_subs_lookup:
  "os_walk_subs body subs = (subs', None) \<Longrightarrow> map_of subs n = Some s0 \<Longrightarrow>
     \<exists>s0'. map_of subs' n = Some s0' \<and> os_walk body n s0 = (s0', None)"
proof (induction subs arbitrary: subs')
  case Nil
  then show ?case by simp
next
  case (Cons a subs)
  obtain name d where a: "a = (name, d)" by (cases a)
  obtain d' r1 where w: "os_walk body name d = (d', r1)" by (cases "os_walk body name d")
  obtain rest' r2 where ws: "os_walk_subs body subs = (rest', r2)"
    by (cases "os_walk_subs body subs")
  from Cons.prems(1) a w have r1: "r1 = None" by (cases r1) auto
  with Cons.prems(1) a w ws have s': "subs' = (name, d') # rest'" and r2: "r2 = None" by auto
  show ?case
  proof (cases "name = n")
    case True
    with Cons.prems(2) a have "s0 = d" by simp
    with True s' w r1 show ?thesis by simp
  next
    case False
    with Cons.prems(2) a have "map_of subs n = Some s0" by simp
    from Cons.IH [OF ws [unfolded r2] this] False s' show ?thesis by simp
  qed
qed

lemma os_walk_at:
  "os_walk body root d = (d', None) \<Longrightarrow> subdir_at d p = Some s \<Longrightarrow>
     \<exists>s'. subdir_at d' p = Some s'
        \<and> body (basename_at root p) (map fst (dsubs s)) (dfiles s) = (dfiles s', None)
        \<and> map fst (dsubs s') = map fst (dsubs s)"
proof (induction p arbitrary: root d d')
  case Nil
  then have "s = d" by simp
  with os_walk_top [OF Nil.prems(1)] show ?case by (simp add: basename_at_def)
next
  case (Cons n q)
  from Cons.prems(2) obtain s0 where m: "map_of (dsubs d) n = Some s0"
    and q: "subdir_at s0 q = Some s"
    by (auto split: option.splits)
  from os_walk_top [OF Cons.prems(1)]
  have ws: "os_walk_subs body (dsubs d) = (dsubs d', None)" by simp
  from os_walk_subs_lookup [OF ws m] obtain s0' where
    m': "map_of (dsubs d') n = Some s0'" and w0: "os_walk body n s0 = (s0', None)" by blast
  from Cons.IH [OF w0 q] obtain s' where "subdir_at s0' q = Some s'"
    "body (basename_at n q) (map fst (dsubs s)) (dfiles s) = (dfiles s', None)"
    "map fst (dsubs s') = map fst (dsubs s)" by blast
  with m' show ?case by (auto simp: basename_at_def)
qed

lemma os_walk_idem_aux:
  "(\<And>r ds fs fs1. body r ds fs = (fs1, None) \<Longrightarrow> body r ds fs1 = (fs1, None)) \<Longrightarrow>
     os_walk body root d = (d1, None) \<Longrightarrow> os_walk body root d1 = (d1, None)"
  "(\<And>r ds fs fs1. body r ds fs = (fs1, None) \<Longrightarrow> body r ds fs1 = (fs1, None)) \<Longrightarrow>
     os_walk_subs body subs = (subs1, None) \<Longrightarrow> os_walk_subs body subs1 = (subs1, None)"
proof (induction body root d and body subs arbitrary: d1 and subs1 rule: os_walk_os_walk_subs.induct)
  case (1 body root files subs)
  from os_walk_top [OF "1.prems"(2)]
  have b: "body root (map fst subs) files = (dfiles d1, None)"
    and n: "map fst (dsubs d1) = map fst subs"
    and ws: "os_walk_subs body subs = (dsubs d1, None)" by simp_all
  have "os_walk_subs body (dsubs d1) = (dsubs d1, None)"
    using "1.IH" [OF b [symmetric] refl "1.prems"(1) ws] .
  moreover have "body root (map fst (dsubs d1)) (dfiles d1) = (dfiles d1, None)"
    using "1.prems"(1) [OF b] n by simp
  ultimately show ?case by (cases d1) simp
next
  case (2 body)
  then show ?case by simp
next
  case (3 body name d rest)
  obtain d' r1 where w: "os_walk body name d = (d', r1)" by (cases "os_walk body name d")
  obtain rest' r2 where ws: "os_walk_subs body rest = (rest', r2)"
    by (cases "os_walk_subs body rest")
  from "3.prems"(2) w have r1: "r1 = None" by (cases r1) auto
  with "3.prems"(2) w ws have s1: "subs1 = (name, d') # rest'" and r2: "r2 = None" by auto
  have a: "os_walk body name d' = (d', None)"
    using "3.IH"(1) [OF "3.prems"(1) w [unfolded r1]] .
  have b: "os_walk_subs body rest' = (rest', None)"
    using "3.IH"(2) [OF w [unfolded r1, symmetric] refl "3.prems"(1) ws [unfolded r2]] .
  from a b s1 show ?case by simp
qed

section \<open>Facts about the manifest store and the walk of \<^verbatim>\<open>create_meta_files_all\<close>\<close>

lemma write_file_None:
  "write_file name c dirs files = (files', None) \<longleftrightarrow> name \<notin> set dirs \<and> files' = dict_set name c files"
  by (auto simp: write_file_def)

lemma load_json_file_Inr:
  assumes "load_json_file name T dirs files = (files0, Inr m0)"
  shows "map_of files0 name = Some (Json m0)
       \<and> (\<forall>c. dict_set name c files0 = dict_set name c files)
       \<and> ((map_of files name = Some (Json m0) \<and> files0 = files)
          \<or> (name \<notin> set (map fst files) \<and> m0 = T \<and> files0 = files @ [(name, Json T)]))"
proof (cases "name \<in> set (map fst files)")
  case True
  then have "name \<in> fst ` set files" by simp
  with assms have "files0 = files \<and> map_of files name = Some (Json m0)"
    by (auto simp: load_json_file_def split: option.splits content.splits)
  then show ?thesis by simp
next
  case False
  then have nf: "name \<notin> fst ` set files" by simp
  with assms have nd: "name \<notin> set dirs"
    by (auto simp: load_json_file_def write_file_def split: if_splits)
  from assms nf nd have f0: "files0 = dict_set name (Json T) files"
    by (auto simp: load_json_file_def write_file_def split: option.splits content.splits)
  from assms nf nd have m0: "m0 = T"
    by (auto simp: load_json_file_def write_file_def map_of_dict_set split: option.splits content.splits)
  have a: "map_of files0 name = Some (Json m0)"
    unfolding f0 m0 by (simp add: map_of_dict_set)
  have b: "\<forall>c. dict_set name c files0 = dict_set name c files"
    unfolding f0 by (simp add: dict_set_twice)
  have c: "files0 = files @ [(name, Json T)]"
    unfolding f0 using False by (simp add: dict_set_new)
  from a b c m0 False show ?thesis by blast
qed

lemma meta_all_visit_None:
  assumes "meta_all_visit root dirs files = (files1, None)"
  shows "\<exists>m0 m'. meta_all_body root dirs (map fst files) m0 = Inr m'
           \<and> files1 = dict_set ''meta.json'' (Json m') files
           \<and> ''meta.json'' \<notin> set dirs
           \<and> (map_of files ''meta.json'' = Some (Json m0)
              \<or> (''meta.json'' \<notin> set (map fst files) \<and> m0 = META_TEMPLATE))"
proof -
  obtain files0 r where l: "load_json_file ''meta.json'' META_TEMPLATE dirs files = (files0, r)"
    by (cases "load_json_file ''meta.json'' META_TEMPLATE dirs files")
  with assms obtain m0 where r: "r = Inr m0"
    by (cases r) (auto simp: meta_all_visit_def)
  with assms l obtain m' where b: "meta_all_body root dirs (map fst files) m0 = Inr m'"
    by (cases "meta_all_body root dirs (map fst files) m0") (auto simp: meta_all_visit_def)
  with assms l r have s: "save_json_file ''meta.json'' m' dirs files0 = (files1, None)"
    by (simp add: meta_all_visit_def)
  from load_json_file_Inr [OF l [unfolded r]] s b show ?thesis
    by (auto simp: save_json_file_def write_file_None)
qed

lemma init_manifest_present:
  "''meta.json'' \<in> set files \<Longrightarrow> init_manifest root dirs files m = Inr m"
  by (simp add: init_manifest_def)

lemma link_build_info_Inr:
  assumes "link_build_info files m = Inr m2"
  shows "(''buildInfo.json'' \<notin> set files \<and> m2 = m)
       \<or> (''buildInfo.json'' \<in> set files \<and>
           (\<exists>l fs. m = JObj l
              \<and> (map_of l ''files'' = Some (JObj fs) \<or> (map_of l ''files'' = None \<and> fs = []))
              \<and> m2 = JObj (dict_set ''files''
                             (JObj (dict_set ''buildInfo'' (JStr ''buildInfo.json'') fs)) l)))"
proof (cases "''buildInfo.json'' \<in> set files")
  case False
  with assms show ?thesis by (simp add: link_build_info_def)
next
  case True
  show ?thesis
  proof (cases m)
    case (JObj l)
    show ?thesis
    proof (cases "map_of l ''files''")
      case None
      then have "''files'' \<notin> fst ` set l" by (simp add: map_of_eq_None_iff)
      with assms True JObj None show ?thesis
        by (auto simp: link_build_info_def contains_def setitem_JObj getitem_JObj
            map_of_dict_set dict_set_twice)
    next
      case (Some v)
      then have "''files'' \<in> fst ` set l" by (rule map_of_Some_key)
      with assms True JObj Some show ?thesis
        by (cases v) (auto simp: link_build_info_def contains_def setitem_def getitem_JObj)
    qed
  qed (use assms True in \<open>auto simp: link_build_info_def contains_def setitem_def getitem_def
        split: if_splits\<close>)
qed

lemma link_build_info_fixed:
  assumes "''buildInfo.json'' \<in> set files \<longrightarrow>
           (\<exists>l fs. m = JObj l \<and> map_of l ''files'' = Some (JObj fs)
              \<and> map_of fs ''buildInfo'' = Some (JStr ''buildInfo.json''))"
  shows "link_build_info files m = Inr m"
proof (cases "''buildInfo.json'' \<in> set files")
  case False
  then show ?thesis by (simp add: link_build_info_def)
next
  case True
  with assms obtain l fs where m: "m = JObj l" and f: "map_of l ''files'' = Some (JObj fs)"
    and b: "map_of fs ''buildInfo'' = Some (JStr ''buildInfo.json'')" by blast
  from f have "''files'' \<in> fst ` set l" by (rule map_of_Some_key)
  with True m f b show ?thesis
    by (simp add: link_build_info_def contains_def setitem_JObj getitem_JObj dict_set_same)
qed

lemma scan_versions_JObj:
  "scan_versions files (JObj l) = Inr (JObj
     (case filter (\<lambda>f. re_search_version f \<noteq> None) files of
        [] \<Rightarrow> l
      | m # ms \<Rightarrow> dict_set ''versionInfo'' (version_info (the (re_search_version (last (m # ms))))) l))"
proof (induction files arbitrary: l)
  case Nil
  then show ?case by simp
next
  case (Cons f files)
  show ?case
  proof (cases "re_search_version f")
    case None
    then show ?thesis using Cons.IH [of l] by simp
  next
    case (Some g)
    then show ?thesis
      using Cons.IH [of "dict_set ''versionInfo'' (version_info g) l"]
      by (auto simp: setitem_JObj dict_set_twice split: list.splits)
  qed
qed

lemma scan_versions_no_match:
  "filter (\<lambda>f. re_search_version f \<noteq> None) files = [] \<Longrightarrow> scan_versions files m = Inr m"
  by (induction files) (auto split: if_splits)

lemma scan_versions_Inr:
  assumes "scan_versions files m = Inr m'"
  shows "(filter (\<lambda>f. re_search_version f \<noteq> None) files = [] \<and> m' = m)
       \<or> (\<exists>l x xs. m = JObj l \<and> filter (\<lambda>f. re_search_version f \<noteq> None) files = x # xs
            \<and> m' = JObj (dict_set ''versionInfo'' (version_info (the (re_search_version (last (x # xs))))) l))"
proof (cases "filter (\<lambda>f. re_search_version f \<noteq> None) files")
  case Nil
  with assms scan_versions_no_match [OF Nil, of m] show ?thesis by simp
next
  case (Cons x xs)
  have "\<exists>l. m = JObj l" using assms Cons
  proof (induction files)
    case Nil
    then show ?case by simp
  next
    case (Cons f files)
    show ?case
    proof (cases "re_search_version f")
      case None
      with Cons show ?thesis by (auto split: if_splits)
    next
      case (Some g)
      with Cons.prems(1) show ?thesis by (cases m) (auto simp: setitem_def)
    qed
  qed
  then obtain l where "m = JObj l" by blast
  with assms Cons scan_versions_JObj [of files l] show ?thesis by auto
qed

text \<open>A name without a version counts for nothing in the version loop, wherever the
  listing has it.\<close>

lemma scan_versions_skips:
  "re_search_version n = None \<Longrightarrow>
   scan_versions (xs @ n # ys) m = scan_versions (xs @ ys) m"
  by (induction xs arbitrary: m) (auto split: option.splits sum.splits)

lemma no_version_meta: "re_search_version ''meta.json'' = None"
  by code_simp
lemma no_version_build_info: "re_search_version ''buildInfo.json'' = None"
  by code_simp

lemma link_build_info_other:
  assumes "link_build_info files m = Inr m2" and "k \<noteq> ''files''"
  shows "getitem m2 k = getitem m k"
  using link_build_info_Inr [OF assms(1)] assms(2)
  by (auto simp: getitem_dict_set_other)

lemma scan_versions_other:
  assumes "scan_versions files m = Inr m'" and "k \<noteq> ''versionInfo''"
  shows "getitem m' k = getitem m k"
  using scan_versions_Inr [OF assms(1)] assms(2)
  by (auto simp: getitem_dict_set_other)

lemma meta_all_body_Inr:
  assumes "meta_all_body root dirs files m = Inr m'"
  obtains m1 m2 where "init_manifest root dirs files m = Inr m1"
    and "link_build_info files m1 = Inr m2" and "scan_versions files m2 = Inr m'"
  using assms by (auto simp: meta_all_body_def and_then_Inr)

lemma meta_all_body_other:
  assumes "''meta.json'' \<in> set files" and "meta_all_body root dirs files m = Inr m'"
    and "k \<noteq> ''files''" and "k \<noteq> ''versionInfo''"
  shows "getitem m' k = getitem m k"
proof -
  from assms(2) obtain m1 m2 where i: "init_manifest root dirs files m = Inr m1"
    and l: "link_build_info files m1 = Inr m2" and s: "scan_versions files m2 = Inr m'"
    by (rule meta_all_body_Inr)
  from i assms(1) have "m1 = m" by (simp add: init_manifest_def)
  with link_build_info_other [OF l assms(3)] scan_versions_other [OF s assms(4)]
  show ?thesis by simp
qed

lemma meta_all_body_version:
  assumes "meta_all_body root dirs files m = Inr m'"
    and "filter (\<lambda>f. re_search_version f \<noteq> None) files = x # xs"
  shows "getitem m' ''versionInfo''
       = Inr (version_info (the (re_search_version (last (x # xs)))))"
proof -
  from assms(1) obtain m1 m2 where s: "scan_versions files m2 = Inr m'"
    by (rule meta_all_body_Inr)
  from scan_versions_Inr [OF s] assms(2) show ?thesis
    by (auto simp: getitem_JObj map_of_dict_set)
qed

lemma meta_all_body_idem:
  assumes b: "meta_all_body root dirs files m = Inr m'"
    and f1: "files1 = files \<or> files1 = files @ [''meta.json'']"
    and p: "''meta.json'' \<in> set files1"
  shows "meta_all_body root dirs files1 m' = Inr m'"
proof -
  from b obtain m1 m2 where i: "init_manifest root dirs files m = Inr m1"
    and l: "link_build_info files m1 = Inr m2" and s: "scan_versions files m2 = Inr m'"
    by (rule meta_all_body_Inr)
  have flt: "filter (\<lambda>f. re_search_version f \<noteq> None) files1
           = filter (\<lambda>f. re_search_version f \<noteq> None) files"
    using f1 by (auto simp del: re_search_version.simps simp: no_version_meta)
  have bi: "''buildInfo.json'' \<in> set files1 \<longleftrightarrow> ''buildInfo.json'' \<in> set files"
    using f1 by auto
  have i': "init_manifest root dirs files1 m' = Inr m'"
    using p by (simp add: init_manifest_def)
  have l': "link_build_info files1 m' = Inr m'"
  proof (rule link_build_info_fixed, rule impI)
    assume "''buildInfo.json'' \<in> set files1"
    with bi link_build_info_Inr [OF l] obtain l1 fs where
      m2: "m2 = JObj (dict_set ''files''
                     (JObj (dict_set ''buildInfo'' (JStr ''buildInfo.json'') fs)) l1)"
      by auto
    from scan_versions_Inr [OF s] m2 obtain l' where "m' = JObj l'"
      and "map_of l' ''files''
           = Some (JObj (dict_set ''buildInfo'' (JStr ''buildInfo.json'') fs))"
      by (auto simp: map_of_dict_set)
    then show "\<exists>l fs. m' = JObj l \<and> map_of l ''files'' = Some (JObj fs)
              \<and> map_of fs ''buildInfo'' = Some (JStr ''buildInfo.json'')"
      by (auto simp: map_of_dict_set)
  qed
  have s': "scan_versions files1 m' = Inr m'"
  proof -
    from scan_versions_Inr [OF s] show ?thesis
    proof
      assume "filter (\<lambda>f. re_search_version f \<noteq> None) files = [] \<and> m' = m2"
      with flt show ?thesis by (simp add: scan_versions_no_match)
    next
      assume "\<exists>l x xs. m2 = JObj l
          \<and> filter (\<lambda>f. re_search_version f \<noteq> None) files = x # xs
          \<and> m' = JObj (dict_set ''versionInfo''
                (version_info (the (re_search_version (last (x # xs))))) l)"
      then obtain l x xs where "filter (\<lambda>f. re_search_version f \<noteq> None) files = x # xs"
        and "m' = JObj (dict_set ''versionInfo''
                (version_info (the (re_search_version (last (x # xs))))) l)" by blast
      with flt show ?thesis
        by (simp add: scan_versions_JObj dict_set_twice)
    qed
  qed
  from i' l' s' show ?thesis by (simp add: meta_all_body_def)
qed

lemma meta_all_visit_idem:
  assumes "meta_all_visit root dirs files = (files1, None)"
  shows "meta_all_visit root dirs files1 = (files1, None)"
proof -
  from meta_all_visit_None [OF assms] obtain m0 m' where
    b: "meta_all_body root dirs (map fst files) m0 = Inr m'"
    and f1: "files1 = dict_set ''meta.json'' (Json m') files"
    and nd: "''meta.json'' \<notin> set dirs" by blast
  have names: "map fst files1 = map fst files \<or> map fst files1 = map fst files @ [''meta.json'']"
    unfolding f1 by (simp add: names_dict_set)
  have p: "''meta.json'' \<in> set (map fst files1)"
    unfolding f1 by (simp add: keys_dict_set)
  have m: "map_of files1 ''meta.json'' = Some (Json m')"
    unfolding f1 by (simp add: map_of_dict_set)
  from p have "''meta.json'' \<in> fst ` set files1" by simp
  with m have ld: "load_json_file ''meta.json'' META_TEMPLATE dirs files1 = (files1, Inr m')"
    by (simp add: load_json_file_def)
  have sv: "save_json_file ''meta.json'' m' dirs files1 = (files1, None)"
    using nd m by (simp add: save_json_file_def write_file_def dict_set_same)
  from ld meta_all_body_idem [OF b names p] sv show ?thesis
    by (simp add: meta_all_visit_def)
qed

section \<open>Facts about build-info synthesis\<close>

lemma add_repositories_shape:
  "add_repositories loads environ (JObj l) = Inr b' \<Longrightarrow>
   map_of l ''versionControlSystem'' = Some (JObj vl) \<Longrightarrow>
   map_of vl ''repositories'' = Some r0 \<Longrightarrow>
   \<exists>r. b' = JObj (dict_set ''versionControlSystem'' (JObj (dict_set ''repositories'' r vl)) l)"
proof (induction environ arbitrary: l vl r0)
  case Nil
  then have "b' = JObj (dict_set ''versionControlSystem''
                   (JObj (dict_set ''repositories'' r0 vl)) l)"
    by (simp add: dict_set_same)
  then show ?case by blast
next
  case (Cons a environ)
  obtain key val where a: "a = (key, val)" by (cases a)
  show ?case
  proof (cases "starts_with key ''GIT_INFO_''")
    case False
    with Cons.prems a have "add_repositories loads environ (JObj l) = Inr b'" by simp
    from Cons.IH [OF this Cons.prems(2,3)] show ?thesis .
  next
    case True
    from Cons.prems(1) a True obtain repo_name where rn: "get_repo_name key = Inr repo_name"
      by (cases "get_repo_name key") auto
    from Cons.prems(1) a True rn obtain repo_info where ri: "loads val = Inr repo_info"
      by (cases "loads val") auto
    from Cons.prems a True rn ri obtain rl where r0: "r0 = JObj rl"
      by (cases r0) (auto simp: getitem_JObj setitem_def)
    define vl1 where "vl1 = dict_set ''repositories'' (JObj (dict_set repo_name repo_info rl)) vl"
    define l1 where "l1 = dict_set ''versionControlSystem'' (JObj vl1) l"
    from Cons.prems a True rn ri r0
    have "add_repositories loads environ (JObj l1) = Inr b'"
      by (simp add: getitem_JObj setitem_JObj l1_def vl1_def)
    moreover have "map_of l1 ''versionControlSystem'' = Some (JObj vl1)"
      by (simp add: l1_def map_of_dict_set)
    moreover have "map_of vl1 ''repositories'' = Some (JObj (dict_set repo_name repo_info rl))"
      by (simp add: vl1_def map_of_dict_set)
    ultimately obtain r where
      "b' = JObj (dict_set ''versionControlSystem'' (JObj (dict_set ''repositories'' r vl1)) l1)"
      using Cons.IH by blast
    then have "b' = JObj (dict_set ''versionControlSystem''
                     (JObj (dict_set ''repositories'' r vl)) l)"
      by (simp add: l1_def vl1_def dict_set_twice)
    then show ?thesis by blast
  qed
qed

lemma build_info_body_idem:
  assumes "build_info_body parse loads environ b0 = Inr b"
  shows "build_info_body parse loads environ b = Inr b"
proof -
  from assms obtain al where b0: "b0 = JObj al"
    by (cases b0) (auto simp: build_info_body_def setitem_def)
  from assms b0 obtain ts where
    ts: "get_timestamp_from_env parse environ ''BUILD_TIMESTAMP'' = Inr ts"
    by (cases "get_timestamp_from_env parse environ ''BUILD_TIMESTAMP''")
       (auto simp: build_info_body_def setitem_JObj)
  define fields :: "(string \<times> json) list \<Rightarrow> (string \<times> json) list" where
    "fields = (\<lambda>x.
       dict_set ''versionJlink'' (JStr (environ_get environ ''JLINK_VERSION'' []))
      (dict_set ''versionPython'' (JStr (environ_get environ ''PYTHON_VERSION'' []))
      (dict_set ''versionIar'' (JStr (environ_get environ ''IAR_VERSION'' []))
      (dict_set ''buildSecond'' (JInt (ts_second ts))
      (dict_set ''buildMinute'' (JInt (ts_minute ts))
      (dict_set ''buildHour'' (JInt (ts_hour ts))
      (dict_set ''buildDay'' (JInt (ts_day ts))
      (dict_set ''buildMonth'' (JInt (ts_month ts))
      (dict_set ''buildYear'' (JInt (ts_year ts))
      (dict_set ''buildTimestamp'' (JStr (ts_iso ts))
      (dict_set ''buildId'' (JStr (environ_get environ ''BUILD_ID'' []))
      (dict_set ''buildNode'' (JStr (environ_get environ ''NODE_NAME'' [])) x))))))))))))"
  have unfold: "build_info_body parse loads environ (JObj x) =
      and_then (getitem (JObj (fields x)) ''versionControlSystem'') (\<lambda>vcs.
      and_then (setitem vcs ''repositories'' (JObj [])) (\<lambda>vcs'.
      and_then (setitem (JObj (fields x)) ''versionControlSystem'' vcs')
        (add_repositories loads environ)))" for x
    by (simp add: build_info_body_def setitem_JObj ts fields_def)
  have vcs_fields: "map_of (fields x) ''versionControlSystem'' = map_of x ''versionControlSystem''"
    for x by (simp add: fields_def map_of_dict_set)
  have fixed: "fields (dict_set ''versionControlSystem'' X (fields x))
             = dict_set ''versionControlSystem'' X (fields x)" for X x
  proof -
    define L where "L = dict_set ''versionControlSystem'' X (fields x)"
    have m: "map_of L = (map_of (fields x))(''versionControlSystem'' \<mapsto> X)"
      by (simp add: L_def map_of_dict_set)
    have mf: "map_of (fields x) k = Some v \<Longrightarrow> k \<noteq> ''versionControlSystem''
        \<Longrightarrow> dict_set k v L = L" for k v
      by (rule dict_set_same) (simp add: m)
    have "dict_set ''buildNode'' (JStr (environ_get environ ''NODE_NAME'' [])) L = L"
      "dict_set ''buildId'' (JStr (environ_get environ ''BUILD_ID'' [])) L = L"
      "dict_set ''buildTimestamp'' (JStr (ts_iso ts)) L = L"
      "dict_set ''buildYear'' (JInt (ts_year ts)) L = L"
      "dict_set ''buildMonth'' (JInt (ts_month ts)) L = L"
      "dict_set ''buildDay'' (JInt (ts_day ts)) L = L"
      "dict_set ''buildHour'' (JInt (ts_hour ts)) L = L"
      "dict_set ''buildMinute'' (JInt (ts_minute ts)) L = L"
      "dict_set ''buildSecond'' (JInt (ts_second ts)) L = L"
      "dict_set ''versionIar'' (JStr (environ_get environ ''IAR_VERSION'' [])) L = L"
      "dict_set ''versionPython'' (JStr (environ_get environ ''PYTHON_VERSION'' [])) L = L"
      "dict_set ''versionJlink'' (JStr (environ_get environ ''JLINK_VERSION'' [])) L = L"
      by (rule mf, simp add: fields_def map_of_dict_set, simp)+
    then have "fields L = L"
      by (simp only: fields_def)
    then show ?thesis by (simp only: L_def)
  qed
  from assms b0 obtain vl0 where vl0: "map_of (fields al) ''versionControlSystem'' = Some (JObj vl0)"
    by (cases "map_of (fields al) ''versionControlSystem''"; cases "the (map_of (fields al) ''versionControlSystem'')")
       (auto simp: unfold getitem_JObj setitem_def)
  define vl13 where "vl13 = dict_set ''repositories'' (JObj []) vl0"
  define l13 where "l13 = dict_set ''versionControlSystem'' (JObj vl13) (fields al)"
  from assms b0 vl0 have add: "add_repositories loads environ (JObj l13) = Inr b"
    by (simp add: unfold getitem_JObj setitem_JObj l13_def vl13_def)
  have "map_of l13 ''versionControlSystem'' = Some (JObj vl13)"
    by (simp add: l13_def map_of_dict_set)
  moreover have "map_of vl13 ''repositories'' = Some (JObj [])"
    by (simp add: vl13_def map_of_dict_set)
  ultimately obtain r where
    "b = JObj (dict_set ''versionControlSystem'' (JObj (dict_set ''repositories'' r vl13)) l13)"
    using add_repositories_shape [OF add] by blast
  then have b: "b = JObj (dict_set ''versionControlSystem''
                   (JObj (dict_set ''repositories'' r vl0)) (fields al))"
    by (simp add: l13_def vl13_def dict_set_twice)
  have "build_info_body parse loads environ b = add_repositories loads environ (JObj l13)"
    unfolding b unfold fixed
    by (simp add: getitem_JObj setitem_JObj map_of_dict_set dict_set_twice l13_def vl13_def)
  with add show ?thesis by simp
qed

lemma generate_build_info_file_None:
  assumes "generate_build_info_file parse loads environ name dirs files = (files1, None)"
  shows "\<exists>b0 b. build_info_body parse loads environ b0 = Inr b
           \<and> files1 = dict_set name (Json b) files \<and> name \<notin> set dirs"
proof -
  obtain files0 r where l: "load_json_file name BUILD_INFO_TEMPLATE dirs files = (files0, r)"
    by (cases "load_json_file name BUILD_INFO_TEMPLATE dirs files")
  with assms obtain b0 where r: "r = Inr b0"
    by (cases r) (auto simp: generate_build_info_file_def)
  with assms l obtain b where b: "build_info_body parse loads environ b0 = Inr b"
    by (cases "build_info_body parse loads environ b0") (auto simp: generate_build_info_file_def)
  with assms l r have s: "save_json_file name b dirs files0 = (files1, None)"
    by (simp add: generate_build_info_file_def)
  from load_json_file_Inr [OF l [unfolded r]] s b show ?thesis
    by (auto simp: save_json_file_def write_file_None)
qed

lemma generate_build_info_file_again:
  assumes "build_info_body parse loads environ b0 = Inr b" and "name \<notin> set dirs"
    and "map_of files2 name = Some (Json b)"
  shows "generate_build_info_file parse loads environ name dirs files2 = (files2, None)"
proof -
  from assms(3) have "name \<in> fst ` set files2" by (rule map_of_Some_key)
  with assms(3) have "load_json_file name BUILD_INFO_TEMPLATE dirs files2 = (files2, Inr b)"
    by (simp add: load_json_file_def)
  moreover have "save_json_file name b dirs files2 = (files2, None)"
    using assms(2,3) by (simp add: save_json_file_def write_file_def dict_set_same)
  ultimately show ?thesis
    using build_info_body_idem [OF assms(1)] by (simp add: generate_build_info_file_def)
qed

lemma create_meta_files_all_None:
  assumes "create_meta_files_all parse loads environ root d = (d', None)"
  obtains files1 where
    "generate_build_info_file parse loads environ ''buildInfo.json'' (map fst (dsubs d)) (dfiles d)
       = (files1, None)"
    and "os_walk meta_all_visit root (Dir files1 (dsubs d)) = (d', None)"
proof -
  obtain files1 r where g:
    "generate_build_info_file parse loads environ ''buildInfo.json'' (map fst (dsubs d)) (dfiles d)
       = (files1, r)"
    by (cases "generate_build_info_file parse loads environ ''buildInfo.json''
                 (map fst (dsubs d)) (dfiles d)")
  with assms have r: "r = None" by (cases r) (auto simp: create_meta_files_all_def)
  with assms g have "os_walk meta_all_visit root (Dir files1 (dsubs d)) = (d', None)"
    by (simp add: create_meta_files_all_def)
  with g r that show ?thesis by blast
qed

lemma create_meta_files_all_idem:
  assumes "create_meta_files_all parse loads environ root d = (d1, None)"
  shows "create_meta_files_all parse loads environ root d1 = (d1, None)"
proof -
  from assms obtain files1 where
    g: "generate_build_info_file parse loads environ ''buildInfo.json'' (map fst (dsubs d)) (dfiles d)
       = (files1, None)"
    and w: "os_walk meta_all_visit root (Dir files1 (dsubs d)) = (d1, None)"
    by (rule create_meta_files_all_None)
  from generate_build_info_file_None [OF g] obtain b0 b where
    b: "build_info_body parse loads environ b0 = Inr b"
    and f1: "files1 = dict_set ''buildInfo.json'' (Json b) (dfiles d)"
    and nd: "''buildInfo.json'' \<notin> set (map fst (dsubs d))" by blast
  from os_walk_top [OF w]
  have v: "meta_all_visit root (map fst (dsubs d)) files1 = (dfiles d1, None)"
    and n: "map fst (dsubs d1) = map fst (dsubs d)" by simp_all
  from meta_all_visit_None [OF v] obtain m' where
    "dfiles d1 = dict_set ''meta.json'' (Json m') files1" by blast
  then have "map_of (dfiles d1) ''buildInfo.json'' = Some (Json b)"
    by (simp add: f1 map_of_dict_set)
  with b nd n have g1:
    "generate_build_info_file parse loads environ ''buildInfo.json'' (map fst (dsubs d1)) (dfiles d1)
       = (dfiles d1, None)"
    by (simp add: generate_build_info_file_again)
  have "os_walk meta_all_visit root d1 = (d1, None)"
    using os_walk_idem_aux(1) [OF meta_all_visit_idem w] .
  with g1 show ?thesis by (simp add: create_meta_files_all_def)
qed

lemma create_meta_files_all_manifest:
  assumes c: "create_meta_files_all parse loads environ root d = (d', None)"
    and at: "subdir_at d p = Some s"
  shows "\<exists>names m0 m'. manifest_at d' p = Some (Json m')
      \<and> meta_all_body (basename_at root p) (map fst (dsubs s)) names m0 = Inr m'
      \<and> (names = map fst (dfiles s) \<or> names = map fst (dfiles s) @ [''buildInfo.json''])
      \<and> (map_of (dfiles s) ''meta.json'' = Some (Json m0)
         \<or> (''meta.json'' \<notin> set names \<and> m0 = META_TEMPLATE))"
proof -
  from c obtain files1 where
    g: "generate_build_info_file parse loads environ ''buildInfo.json'' (map fst (dsubs d)) (dfiles d)
       = (files1, None)"
    and w: "os_walk meta_all_visit root (Dir files1 (dsubs d)) = (d', None)"
    by (rule create_meta_files_all_None)
  from generate_build_info_file_None [OF g] obtain b where
    f1: "files1 = dict_set ''buildInfo.json'' (Json b) (dfiles d)" by blast
  define s0 where "s0 = (if p = [] then Dir files1 (dsubs d) else s)"
  have at0: "subdir_at (Dir files1 (dsubs d)) p = Some s0"
    using at by (cases p) (auto simp: s0_def)
  have subs0: "dsubs s0 = dsubs s" using at by (cases p) (auto simp: s0_def)
  have names0: "map fst (dfiles s0) = map fst (dfiles s)
      \<or> map fst (dfiles s0) = map fst (dfiles s) @ [''buildInfo.json'']"
    using at by (cases p) (auto simp: s0_def f1 names_dict_set)
  have meta0: "map_of (dfiles s0) ''meta.json'' = map_of (dfiles s) ''meta.json''"
    using at by (cases p) (auto simp: s0_def f1 map_of_dict_set)
  from os_walk_at [OF w at0] obtain s' where at': "subdir_at d' p = Some s'"
    and v: "meta_all_visit (basename_at root p) (map fst (dsubs s0)) (dfiles s0) = (dfiles s', None)"
    by blast
  from meta_all_visit_None [OF v] obtain m0 m' where
    b: "meta_all_body (basename_at root p) (map fst (dsubs s0)) (map fst (dfiles s0)) m0 = Inr m'"
    and fs': "dfiles s' = dict_set ''meta.json'' (Json m') (dfiles s0)"
    and ld: "map_of (dfiles s0) ''meta.json'' = Some (Json m0)
         \<or> (''meta.json'' \<notin> set (map fst (dfiles s0)) \<and> m0 = META_TEMPLATE)" by blast
  have "manifest_at d' p = Some (Json m')"
    using at' fs' by (simp add: manifest_at_def map_of_dict_set)
  with b names0 ld show ?thesis unfolding subs0 meta0 by blast
qed

lemma add_repositories_other:
  "add_repositories loads environ b = Inr b' \<Longrightarrow> k \<noteq> ''versionControlSystem'' \<Longrightarrow>
     getitem b' k = getitem b k"
proof (induction environ arbitrary: b)
  case Nil
  then show ?case by simp
next
  case (Cons a environ)
  obtain key val where a: "a = (key, val)" by (cases a)
  show ?case
  proof (cases "starts_with key ''GIT_INFO_''")
    case False
    with Cons a show ?thesis by simp
  next
    case True
    from Cons.prems(1) a True obtain b1 where
      s: "\<exists>vcs'. setitem b ''versionControlSystem'' vcs' = Inr b1"
      and r: "add_repositories loads environ b1 = Inr b'"
      by (auto simp: and_then_Inr split: sum.splits)
    from s Cons.prems(2) have "getitem b1 k = getitem b k"
      by (auto dest!: setitem_Inr simp: getitem_dict_set_other)
    with Cons.IH [OF r Cons.prems(2)] show ?thesis by simp
  qed
qed

lemma build_info_body_timestamp:
  assumes "build_info_body parse loads environ b0 = Inr b"
  shows "\<exists>ts. parse (environ_get environ ''BUILD_TIMESTAMP'' []) = Inr ts
     \<and> getitem b ''buildTimestamp'' = Inr (JStr (ts_iso ts))
     \<and> getitem b ''buildYear'' = Inr (JInt (ts_year ts))
     \<and> getitem b ''buildMonth'' = Inr (JInt (ts_month ts))
     \<and> getitem b ''buildDay'' = Inr (JInt (ts_day ts))
     \<and> getitem b ''buildHour'' = Inr (JInt (ts_hour ts))
     \<and> getitem b ''buildMinute'' = Inr (JInt (ts_minute ts))
     \<and> getitem b ''buildSecond'' = Inr (JInt (ts_second ts))"
proof -
  from assms obtain al where b0: "b0 = JObj al"
    by (cases b0) (auto simp: build_info_body_def setitem_def)
  from assms b0 obtain ts where
    ts: "get_timestamp_from_env parse environ ''BUILD_TIMESTAMP'' = Inr ts"
    by (cases "get_timestamp_from_env parse environ ''BUILD_TIMESTAMP''")
       (auto simp: build_info_body_def setitem_JObj)
  from assms b0 ts obtain L vcs' where
    add: "add_repositories loads environ (JObj (dict_set ''versionControlSystem'' vcs' L)) = Inr b"
    and "map_of L ''buildTimestamp'' = Some (JStr (ts_iso ts))"
    and "map_of L ''buildYear'' = Some (JInt (ts_year ts))"
    and "map_of L ''buildMonth'' = Some (JInt (ts_month ts))"
    and "map_of L ''buildDay'' = Some (JInt (ts_day ts))"
    and "map_of L ''buildHour'' = Some (JInt (ts_hour ts))"
    and "map_of L ''buildMinute'' = Some (JInt (ts_minute ts))"
    and "map_of L ''buildSecond'' = Some (JInt (ts_second ts))"
    by (auto simp: build_info_body_def setitem_JObj and_then_Inr map_of_dict_set
        dest!: setitem_Inr)
  then show ?thesis
    using ts add_repositories_other [OF add]
    by (simp add: getitem_JObj map_of_dict_set get_timestamp_from_env_def)
qed

lemma build_info_body_parse_fails:
  assumes "parse (environ_get environ ''BUILD_TIMESTAMP'' []) = Inl e"
  shows "build_info_body parse loads environ b0 = Inl (if \<exists>al. b0 = JObj al then e else TypeError)"
  using assms
  by (cases b0) (simp_all add: build_info_body_def setitem_def get_timestamp_from_env_def)

section \<open>The full walk: which version is saved\<close>

text \<open>
  C1, as the specification states it, fails: the version loop of
  \<^verbatim>\<open>create_meta_files_all\<close> has no exit, so every matching file overwrites
  \<^verbatim>\<open>versionInfo\<close> and the last one stays. A directory that lists
  \<^verbatim>\<open>fw-1.2.3.4.hex\<close> and then \<^verbatim>\<open>fw-5.6.7.8.hex\<close> gets the version 5.6.7.8, although the
  first file of the listing matches the pattern too.
\<close>

theorem version_first_match_counterexample:
  "manifest_at (fst (create_meta_files_all example_parse example_loads example_environ ''rel''
       (Dir [(''fw-1.2.3.4.hex'', Other), (''fw-5.6.7.8.hex'', Other)] []))) []
   = Some (Json (JObj
       [(''self'', JStr ''meta.json''),
        (''selfDirName'', JStr ''rel''),
        (''metaTargets'', JArr []),
        (''files'', JObj [(''buildInfo'', JStr ''buildInfo.json'')]),
        (''versionInfo'', JObj
           [(''versionCompact'', JStr ''5.6.7.8''),
            (''versionFull'', JStr ''5.6.7.8''),
            (''versionFamily'', JInt 5),
            (''versionMajor'', JInt 6),
            (''versionMinor'', JInt 7),
            (''versionPatch'', JInt 8)])]))
   \<and> re_search_version ''fw-1.2.3.4.hex'' = Some [''1'', ''2'', ''3'', ''4'']"
  by code_simp

text \<open>
  C1, amended: when the full walk succeeds, the manifest of every directory that lists at
  least one file name with the four-component pattern holds the version of exactly one
  of them, the last match in the order of the listing; the matches before it do not
  show in the saved \<^verbatim>\<open>versionInfo\<close>.
\<close>

theorem version_last_match_wins:
  assumes "create_meta_files_all parse loads environ root d = (d', None)"
    and "subdir_at d p = Some s"
    and "filter (\<lambda>f. re_search_version f \<noteq> None) (map fst (dfiles s)) = x # xs"
  shows "\<exists>m' groups. manifest_at d' p = Some (Json m')
           \<and> re_search_version (last (x # xs)) = Some groups
           \<and> getitem m' ''versionInfo'' = Inr (version_info groups)"
proof -
  from create_meta_files_all_manifest [OF assms(1,2)] obtain names m0 m' where
    m: "manifest_at d' p = Some (Json m')"
    and b: "meta_all_body (basename_at root p) (map fst (dsubs s)) names m0 = Inr m'"
    and n: "names = map fst (dfiles s) \<or> names = map fst (dfiles s) @ [''buildInfo.json'']"
    by blast
  from n assms(3) have "filter (\<lambda>f. re_search_version f \<noteq> None) names = x # xs"
    by (auto simp del: re_search_version.simps simp: no_version_build_info)
  from meta_all_body_version [OF b this]
  have v: "getitem m' ''versionInfo''
       = Inr (version_info (the (re_search_version (last (x # xs)))))" .
  have "last (x # xs) \<in> set (filter (\<lambda>f. re_search_version f \<noteq> None) (map fst (dfiles s)))"
    unfolding assms(3) by (rule last_in_set) simp
  then obtain groups where "re_search_version (last (x # xs)) = Some groups" by auto
  with m v show ?thesis by auto
qed

theorem version_last_match_wins_witness:
  "\<exists>m'. manifest_at (fst (create_meta_files_all example_parse example_loads example_environ
              ''rel'' example_release)) [''sub''] = Some (Json m')
     \<and> getitem m' ''versionInfo'' = Inr (version_info [''0'', ''10'', ''0'', ''2''])"
proof -
  have h1: "create_meta_files_all example_parse example_loads example_environ ''rel'' example_release
     = (fst (create_meta_files_all example_parse example_loads example_environ ''rel''
          example_release), None)"
    by code_simp
  have h2: "subdir_at example_release [''sub'']
     = Some (Dir [(''app-0.9.0.1.bin'', Other), (''app-0.10.0.2.bin'', Other)] [])"
    by code_simp
  have h3: "filter (\<lambda>f. re_search_version f \<noteq> None)
       (map fst (dfiles (Dir [(''app-0.9.0.1.bin'', Other), (''app-0.10.0.2.bin'', Other)] [])))
     = [''app-0.9.0.1.bin'', ''app-0.10.0.2.bin'']"
    by code_simp
  have h4: "re_search_version (last [''app-0.9.0.1.bin'', ''app-0.10.0.2.bin''])
     = Some [''0'', ''10'', ''0'', ''2'']"
    by code_simp
  from version_last_match_wins [OF h1 h2 h3] h4 show ?thesis by auto
qed

section \<open>The full walk twice\<close>

text \<open>
  C5: when a full walk of \<^verbatim>\<open>create_meta_files_all\<close> succeeds and nothing else changes
  the tree or the environment, a second walk succeeds too and leaves the tree exactly as
  the first one left it. Every manifest then holds the same document, keys in the same
  order, so \<^verbatim>\<open>json.dump\<close> writes the same bytes. The order of a listing is part of the
  tree, which is the fixed scan order the claim asks for; the manifest the first walk
  adds to a listing has no version in its name, so its place in the listing does not
  count (\<open>scan_versions_skips\<close>).
\<close>

theorem full_walk_idempotent:
  assumes "create_meta_files_all parse loads environ root d = (d1, None)"
  shows "create_meta_files_all parse loads environ root d1 = (d1, None)
       \<and> (\<forall>p. manifest_at (fst (create_meta_files_all parse loads environ root d1)) p
               = manifest_at d1 p)"
  using create_meta_files_all_idem [OF assms] by simp

theorem full_walk_idempotent_witness:
  "create_meta_files_all example_parse example_loads example_environ ''rel''
     (fst (create_meta_files_all example_parse example_loads example_environ ''rel'' example_release))
   = (fst (create_meta_files_all example_parse example_loads example_environ ''rel'' example_release),
      None)"
proof -
  have h1: "create_meta_files_all example_parse example_loads example_environ ''rel'' example_release
     = (fst (create_meta_files_all example_parse example_loads example_environ ''rel''
          example_release), None)"
    by code_simp
  from full_walk_idempotent [OF h1] show ?thesis by blast
qed

section \<open>The directory name of a manifest\<close>

lemma update_meta_json_self_dir_name:
  assumes u: "update_meta_json dir_name file_name key val json_path dirs files = (files', None)"
    and f: "map_of files file_name = Some (Json m)"
    and g: "getitem m ''selfDirName'' = Inr (JStr x)"
    and x: "x \<noteq> []"
  shows "\<exists>m'. map_of files' file_name = Some (Json m')
           \<and> getitem m' ''selfDirName'' = Inr (JStr x)"
proof -
  from f have "file_name \<in> fst ` set files" by (rule map_of_Some_key)
  with f have ld: "load_json_file file_name META_TEMPLATE dirs files = (files, Inr m)"
    by (simp add: load_json_file_def)
  with u obtain m' where b: "update_meta_body dir_name key val json_path m = Inr m'"
    by (cases "update_meta_body dir_name key val json_path m") (auto simp: update_meta_json_def)
  with u ld have sv: "save_json_file file_name m' dirs files = (files', None)"
    by (simp add: update_meta_json_def)
  from g obtain l where m: "m = JObj l" by (auto dest: getitem_Inr)
  from b g x m obtain inner inner' where
    i: "getitem (JObj l) json_path = Inr inner"
    and s: "setitem inner key (JStr val) = Inr inner'"
    and m': "m' = JObj (dict_set json_path inner' l)"
    by (auto simp: update_meta_body_def truthy_def and_then_Inr setitem_JObj)
  have "json_path \<noteq> ''selfDirName''"
  proof
    assume "json_path = ''selfDirName''"
    with i g m have "inner = JStr x" by simp
    with s show False by (simp add: setitem_def)
  qed
  then have "getitem m' ''selfDirName'' = Inr (JStr x)"
    using g m m' by (simp add: getitem_dict_set_other)
  moreover from sv have "map_of files' file_name = Some (Json m')"
    by (auto simp: save_json_file_def write_file_None map_of_dict_set)
  ultimately show ?thesis by blast
qed

lemma full_walk_self_dir_name:
  assumes c: "create_meta_files_all parse loads environ root d = (d', None)"
    and at: "subdir_at d p = Some s"
    and f: "map_of (dfiles s) ''meta.json'' = Some (Json m)"
  shows "\<exists>m'. manifest_at d' p = Some (Json m')
           \<and> getitem m' ''selfDirName'' = getitem m ''selfDirName''"
proof -
  from create_meta_files_all_manifest [OF c at] obtain names m0 m' where
    m': "manifest_at d' p = Some (Json m')"
    and b: "meta_all_body (basename_at root p) (map fst (dsubs s)) names m0 = Inr m'"
    and n: "names = map fst (dfiles s) \<or> names = map fst (dfiles s) @ [''buildInfo.json'']"
    and l: "map_of (dfiles s) ''meta.json'' = Some (Json m0)
         \<or> (''meta.json'' \<notin> set names \<and> m0 = META_TEMPLATE)"
    by blast
  from f have k: "''meta.json'' \<in> fst ` set (dfiles s)" by (rule map_of_Some_key)
  from n have p: "''meta.json'' \<in> set names"
  proof
    assume "names = map fst (dfiles s)"
    with k show ?thesis by simp
  next
    assume "names = map fst (dfiles s) @ [''buildInfo.json'']"
    with k show ?thesis by simp
  qed
  with l f have "m0 = m" by simp
  with meta_all_body_other [OF p b, of "''selfDirName''"] m' show ?thesis by simp
qed

text \<open>
  C6: a manifest whose \<^verbatim>\<open>selfDirName\<close> is a non-empty string keeps that value through
  every \<^verbatim>\<open>update_meta_json\<close> call that succeeds on it, and through every full walk of
  \<^verbatim>\<open>create_meta_files_all\<close> that succeeds over its directory, whatever the directory is
  called by then. Each conclusion gives back the hypothesis on the new manifest, so the
  value survives any sequence of such calls.
\<close>

theorem self_dir_name_immutable:
  "(update_meta_json dir_name file_name key val json_path dirs files = (files', None) \<longrightarrow>
    map_of files file_name = Some (Json m) \<longrightarrow>
    getitem m ''selfDirName'' = Inr (JStr x) \<longrightarrow> x \<noteq> [] \<longrightarrow>
      (\<exists>m'. map_of files' file_name = Some (Json m')
          \<and> getitem m' ''selfDirName'' = Inr (JStr x)))
   \<and> (create_meta_files_all parse loads environ root d = (d', None) \<longrightarrow>
      subdir_at d p = Some s \<longrightarrow>
      map_of (dfiles s) ''meta.json'' = Some (Json m2) \<longrightarrow>
      getitem m2 ''selfDirName'' = Inr (JStr y) \<longrightarrow> y \<noteq> [] \<longrightarrow>
        (\<exists>m'. manifest_at d' p = Some (Json m')
            \<and> getitem m' ''selfDirName'' = Inr (JStr y)))"
  using update_meta_json_self_dir_name [of dir_name file_name key val json_path dirs files files' m x]
    full_walk_self_dir_name [of parse loads environ root d d' p s m2]
  by auto

theorem self_dir_name_immutable_witness:
  "(\<exists>m'. map_of (fst (update_meta_json ''new_name'' ''meta.json'' ''firmware'' ''fw.hex''
                ''files'' []
                [(''meta.json'', Json (JObj [(''selfDirName'', JStr ''old_name''),
                                             (''files'', JObj [])]))])) ''meta.json''
           = Some (Json m')
        \<and> getitem m' ''selfDirName'' = Inr (JStr ''old_name''))
   \<and> (\<exists>m'. manifest_at (fst (create_meta_files_all example_parse example_loads example_environ
                ''rel'' example_renamed)) [''new_name''] = Some (Json m')
        \<and> getitem m' ''selfDirName'' = Inr (JStr ''old_name''))"
proof -
  let ?files = "[(''meta.json'', Json (JObj [(''selfDirName'', JStr ''old_name''),
                                            (''files'', JObj [])]))]"
  let ?m = "JObj [(''selfDirName'', JStr ''old_name''), (''files'', JObj [])]"
  have a1: "update_meta_json ''new_name'' ''meta.json'' ''firmware'' ''fw.hex'' ''files'' [] ?files
      = (fst (update_meta_json ''new_name'' ''meta.json'' ''firmware'' ''fw.hex'' ''files'' []
           ?files), None)"
    by code_simp
  have a2: "map_of ?files ''meta.json'' = Some (Json ?m)" by simp
  have a3: "getitem ?m ''selfDirName'' = Inr (JStr ''old_name'')" by code_simp
  have a4: "''old_name'' \<noteq> []" by simp
  have b1: "create_meta_files_all example_parse example_loads example_environ ''rel'' example_renamed
      = (fst (create_meta_files_all example_parse example_loads example_environ ''rel''
           example_renamed), None)"
    by code_simp
  have b2: "subdir_at example_renamed [''new_name''] = Some (Dir ?files [])" by code_simp
  have b3: "map_of (dfiles (Dir ?files [])) ''meta.json'' = Some (Json ?m)" by simp
  from self_dir_name_immutable [of "''new_name''" "''meta.json''" "''firmware''" "''fw.hex''"
      "''files''" "[]" ?files
      "fst (update_meta_json ''new_name'' ''meta.json'' ''firmware'' ''fw.hex'' ''files'' []
         ?files)" ?m "''old_name''"
      example_parse example_loads example_environ "''rel''" example_renamed
      "fst (create_meta_files_all example_parse example_loads example_environ ''rel''
         example_renamed)" "[''new_name'']" "Dir ?files []" ?m "''old_name''"]
    a1 a2 a3 a4 b1 b2 b3
  show ?thesis by blast
qed

section \<open>A missing or unreadable build timestamp\<close>

text \<open>
  C8: when \<^verbatim>\<open>BUILD_TIMESTAMP\<close> is absent, so that the parser is handed the empty string
  and rejects it, or holds a string the parser rejects, \<^verbatim>\<open>generate_build_info_file\<close>
  ends with an exception and so does \<^verbatim>\<open>create_meta_files_all\<close>, which starts with it;
  on a directory that has no build-info file yet the exception is the parser's own. And
  whenever \<^verbatim>\<open>generate_build_info_file\<close> returns normally, the seven timestamp fields of
  the saved document are the ones of the parsed timestamp, never defaults.
\<close>

theorem build_timestamp_failure_surfaces:
  "((map_of environ ''BUILD_TIMESTAMP'' = None \<and> parse [] = Inl e)
      \<or> (\<exists>v. map_of environ ''BUILD_TIMESTAMP'' = Some v \<and> parse v = Inl e) \<longrightarrow>
     snd (generate_build_info_file parse loads environ name dirs files) \<noteq> None
     \<and> snd (create_meta_files_all parse loads environ root d) \<noteq> None
     \<and> (name \<notin> fst ` set files \<and> name \<notin> set dirs \<longrightarrow>
          snd (generate_build_info_file parse loads environ name dirs files) = Some e))
   \<and> (generate_build_info_file parse loads environ name dirs files = (files1, None) \<longrightarrow>
       (\<exists>ts b. parse (environ_get environ ''BUILD_TIMESTAMP'' []) = Inr ts
          \<and> map_of files1 name = Some (Json b)
          \<and> getitem b ''buildTimestamp'' = Inr (JStr (ts_iso ts))
          \<and> getitem b ''buildYear'' = Inr (JInt (ts_year ts))
          \<and> getitem b ''buildMonth'' = Inr (JInt (ts_month ts))
          \<and> getitem b ''buildDay'' = Inr (JInt (ts_day ts))
          \<and> getitem b ''buildHour'' = Inr (JInt (ts_hour ts))
          \<and> getitem b ''buildMinute'' = Inr (JInt (ts_minute ts))
          \<and> getitem b ''buildSecond'' = Inr (JInt (ts_second ts))))"
proof (intro conjI impI)
  assume a: "(map_of environ ''BUILD_TIMESTAMP'' = None \<and> parse [] = Inl e)
      \<or> (\<exists>v. map_of environ ''BUILD_TIMESTAMP'' = Some v \<and> parse v = Inl e)"
  then have pf: "parse (environ_get environ ''BUILD_TIMESTAMP'' []) = Inl e"
    by (auto simp: environ_get_def)
  have body: "build_info_body parse loads environ b0 \<noteq> Inr b" for b0 b
    using build_info_body_parse_fails
      [where parse = parse and environ = environ and e = e and loads = loads
         and ?b0.0 = b0, OF pf]
    by simp
  have g: "snd (generate_build_info_file parse loads environ n ds fs) \<noteq> None" for n ds fs
  proof
    assume "snd (generate_build_info_file parse loads environ n ds fs) = None"
    then have "generate_build_info_file parse loads environ n ds fs
      = (fst (generate_build_info_file parse loads environ n ds fs), None)"
      by (metis prod.collapse)
    from generate_build_info_file_None [OF this] body show False by blast
  qed
  show "snd (generate_build_info_file parse loads environ name dirs files) \<noteq> None"
    by (rule g)
  show "snd (create_meta_files_all parse loads environ root d) \<noteq> None"
  proof
    assume "snd (create_meta_files_all parse loads environ root d) = None"
    then have "create_meta_files_all parse loads environ root d
      = (fst (create_meta_files_all parse loads environ root d), None)"
      by (metis prod.collapse)
    then obtain files1 where
      "generate_build_info_file parse loads environ ''buildInfo.json''
         (map fst (dsubs d)) (dfiles d) = (files1, None)"
      by (rule create_meta_files_all_None)
    with g [of "''buildInfo.json''" "map fst (dsubs d)" "dfiles d"] show False by simp
  qed
  show "snd (generate_build_info_file parse loads environ name dirs files) = Some e"
    if "name \<notin> fst ` set files \<and> name \<notin> set dirs"
    using that build_info_body_parse_fails
      [where parse = parse and environ = environ and e = e and loads = loads
         and ?b0.0 = BUILD_INFO_TEMPLATE, OF pf]
    by (simp add: generate_build_info_file_def load_json_file_def write_file_def
        map_of_dict_set BUILD_INFO_TEMPLATE_def)
next
  assume s: "generate_build_info_file parse loads environ name dirs files = (files1, None)"
  from generate_build_info_file_None [OF s] obtain b0 b where
    b: "build_info_body parse loads environ b0 = Inr b"
    and f1: "files1 = dict_set name (Json b) files" by blast
  from f1 have "map_of files1 name = Some (Json b)" by (simp add: map_of_dict_set)
  with build_info_body_timestamp [OF b]
  show "\<exists>ts b. parse (environ_get environ ''BUILD_TIMESTAMP'' []) = Inr ts
          \<and> map_of files1 name = Some (Json b)
          \<and> getitem b ''buildTimestamp'' = Inr (JStr (ts_iso ts))
          \<and> getitem b ''buildYear'' = Inr (JInt (ts_year ts))
          \<and> getitem b ''buildMonth'' = Inr (JInt (ts_month ts))
          \<and> getitem b ''buildDay'' = Inr (JInt (ts_day ts))
          \<and> getitem b ''buildHour'' = Inr (JInt (ts_hour ts))
          \<and> getitem b ''buildMinute'' = Inr (JInt (ts_minute ts))
          \<and> getitem b ''buildSecond'' = Inr (JInt (ts_second ts))"
    by blast
qed

theorem build_timestamp_failure_surfaces_witness:
  "snd (generate_build_info_file example_parse example_loads [] ''buildInfo.json'' [] [])
     = Some ParserError
   \<and> snd (create_meta_files_all example_parse example_loads [] ''rel'' example_release) \<noteq> None
   \<and> (\<exists>ts b. example_parse (environ_get example_environ ''BUILD_TIMESTAMP'' []) = Inr ts
          \<and> map_of (fst (generate_build_info_file example_parse example_loads example_environ
                  ''buildInfo.json'' [] [])) ''buildInfo.json'' = Some (Json b)
          \<and> getitem b ''buildTimestamp'' = Inr (JStr (ts_iso ts))
          \<and> getitem b ''buildYear'' = Inr (JInt (ts_year ts))
          \<and> getitem b ''buildMonth'' = Inr (JInt (ts_month ts))
          \<and> getitem b ''buildDay'' = Inr (JInt (ts_day ts))
          \<and> getitem b ''buildHour'' = Inr (JInt (ts_hour ts))
          \<and> getitem b ''buildMinute'' = Inr (JInt (ts_minute ts))
          \<and> getitem b ''buildSecond'' = Inr (JInt (ts_second ts)))"
proof -
  have absent: "map_of ([] :: (string \<times> string) list) ''BUILD_TIMESTAMP'' = None
      \<and> example_parse [] = Inl ParserError"
    by (simp add: example_parse_def)
  have fresh: "''buildInfo.json'' \<notin> fst ` set ([] :: (string \<times> content) list)
      \<and> ''buildInfo.json'' \<notin> set ([] :: string list)"
    by simp
  have ok: "generate_build_info_file example_parse example_loads example_environ
        ''buildInfo.json'' [] []
      = (fst (generate_build_info_file example_parse example_loads example_environ
           ''buildInfo.json'' [] []), None)"
    by code_simp
  from build_timestamp_failure_surfaces
    [where environ = "[]" and parse = example_parse and e = ParserError
       and loads = example_loads and name = "''buildInfo.json''" and dirs = "[]"
       and files = "[]" and root = "''rel''" and d = example_release]
    absent fresh
  have "snd (generate_build_info_file example_parse example_loads [] ''buildInfo.json'' [] [])
     = Some ParserError
   \<and> snd (create_meta_files_all example_parse example_loads [] ''rel'' example_release) \<noteq> None"
    by blast
  moreover from build_timestamp_failure_surfaces
    [where environ = example_environ and parse = example_parse
       and loads = example_loads and name = "''buildInfo.json''" and dirs = "[]"
       and files = "[]"
       and ?files1.0 = "fst (generate_build_info_file example_parse example_loads
           example_environ ''buildInfo.json'' [] [])"]
    ok
  have "\<exists>ts b. example_parse (environ_get example_environ ''BUILD_TIMESTAMP'' []) = Inr ts
          \<and> map_of (fst (generate_build_info_file example_parse example_loads example_environ
                  ''buildInfo.json'' [] [])) ''buildInfo.json'' = Some (Json b)
          \<and> getitem b ''buildTimestamp'' = Inr (JStr (ts_iso ts))
          \<and> getitem b ''buildYear'' = Inr (JInt (ts_year ts))
          \<and> getitem b ''buildMonth'' = Inr (JInt (ts_month ts))
          \<and> getitem b ''buildDay'' = Inr (JInt (ts_day ts))
          \<and> getitem b ''buildHour'' = Inr (JInt (ts_hour ts))
          \<and> getitem b ''buildMinute'' = Inr (JInt (ts_minute ts))
          \<and> getitem b ''buildSecond'' = Inr (JInt (ts_second ts))"
    by blast
  ultimately show ?thesis by blast
qed

section \<open>The full-rebuild variant: what it writes\<close>

lemma hex_version_loop_JObj:
  "hex_version_loop files (JObj l) = Inr (JObj
     (case find (\<lambda>f. ends_with f ''.hex'') files of
        None \<Rightarrow> l
      | Some f \<Rightarrow>
          (case re_search_version f of
             None \<Rightarrow> l
           | Some groups \<Rightarrow> dict_set ''versionInfo'' (version_info groups) l)))"
  by (induction files) (auto simp: setitem_JObj split: option.splits)

lemma targets_loop_JObj:
  "map_of l ''metaTargets'' = Some (JArr ts) \<Longrightarrow>
   targets_loop dirs (JObj l) = Inr (JObj (dict_set ''metaTargets''
     (JArr (ts @ map (\<lambda>directory. JObj [(''targetName'', JStr directory),
        (''metaInformationFile'', JStr (directory @ ''/meta.json''))]) dirs)) l))"
proof (induction dirs arbitrary: l ts)
  case Nil
  then show ?case by (simp add: dict_set_same)
next
  case (Cons directory dirs)
  let ?t = "JObj [(''targetName'', JStr directory),
        (''metaInformationFile'', JStr (directory @ ''/meta.json''))]"
  have "map_of (dict_set ''metaTargets'' (JArr (ts @ [?t])) l) ''metaTargets''
      = Some (JArr (ts @ [?t]))"
    by (simp add: map_of_dict_set)
  from Cons.IH [OF this] Cons.prems show ?case
    by (simp add: getitem_JObj setitem_JObj append_item_def dict_set_twice)
qed

lemma files_loop_JObj:
  "map_of l ''files'' = Some (JObj fs) \<Longrightarrow>
   files_loop files (JObj l) = Inr (JObj (dict_set ''files''
     (JObj (fold (\<lambda>f. dict_set f (JStr f)) (filter (\<lambda>f. f \<noteq> ''meta.json'') files) fs)) l))"
proof (induction files arbitrary: l fs)
  case Nil
  then show ?case by (simp add: dict_set_same)
next
  case (Cons fl files)
  show ?case
  proof (cases "fl = ''meta.json''")
    case True
    with Cons show ?thesis by simp
  next
    case False
    have "map_of (dict_set ''files'' (JObj (dict_set fl (JStr fl) fs)) l) ''files''
        = Some (JObj (dict_set fl (JStr fl) fs))"
      by (simp add: map_of_dict_set)
    from Cons.IH [OF this] Cons.prems False show ?thesis
      by (simp add: getitem_JObj setitem_JObj dict_set_twice)
  qed
qed

lemma fold_dict_set_distinct:
  "distinct (map fst acc @ fs) \<Longrightarrow>
   fold (\<lambda>f. dict_set f (g f)) fs acc = acc @ map (\<lambda>f. (f, g f)) fs"
proof (induction fs arbitrary: acc)
  case Nil
  then show ?case by simp
next
  case (Cons f fs)
  from Cons.prems have nf: "f \<notin> set (map fst acc)" by auto
  then have d: "dict_set f (g f) acc = acc @ [(f, g f)]" by (rule dict_set_new)
  from Cons.prems have "distinct (map fst (acc @ [(f, g f)]) @ fs)" by auto
  from Cons.IH [OF this] d show ?case by simp
qed

lemma create_meta_json_body_eq:
  "create_meta_json_body root dirs files = Inr (JObj
     [(''self'', JStr ''meta.json''),
      (''selfDirName'', JStr root),
      (''metaTargets'', JArr (map (\<lambda>directory. JObj [(''targetName'', JStr directory),
          (''metaInformationFile'', JStr (directory @ ''/meta.json''))]) dirs)),
      (''files'', JObj (fold (\<lambda>f. dict_set f (JStr f))
          (filter (\<lambda>f. f \<noteq> ''meta.json'') files) [])),
      (''versionInfo'',
         (case find (\<lambda>f. ends_with f ''.hex'') files of
            None \<Rightarrow> JObj []
          | Some f \<Rightarrow>
              (case re_search_version f of
                 None \<Rightarrow> JObj []
               | Some groups \<Rightarrow> version_info groups)))])"
proof -
  let ?l0 = "[(''self'', JStr ''meta.json''), (''selfDirName'', JStr root),
      (''metaTargets'', JArr []), (''files'', JObj []), (''versionInfo'', JObj [])]"
  let ?v = "(case find (\<lambda>f. ends_with f ''.hex'') files of
            None \<Rightarrow> JObj []
          | Some f \<Rightarrow>
              (case re_search_version f of
                 None \<Rightarrow> JObj []
               | Some groups \<Rightarrow> version_info groups))"
  let ?l1 = "[(''self'', JStr ''meta.json''), (''selfDirName'', JStr root),
      (''metaTargets'', JArr []), (''files'', JObj []), (''versionInfo'', ?v)]"
  have 1: "hex_version_loop files (JObj ?l0) = Inr (JObj ?l1)"
    unfolding hex_version_loop_JObj by (simp split: option.splits)
  have 2: "targets_loop dirs (JObj ?l1) = Inr (JObj (dict_set ''metaTargets''
     (JArr ([] @ map (\<lambda>directory. JObj [(''targetName'', JStr directory),
        (''metaInformationFile'', JStr (directory @ ''/meta.json''))]) dirs)) ?l1))"
    by (rule targets_loop_JObj) simp
  let ?l2 = "dict_set ''metaTargets''
     (JArr ([] @ map (\<lambda>directory. JObj [(''targetName'', JStr directory),
        (''metaInformationFile'', JStr (directory @ ''/meta.json''))]) dirs)) ?l1"
  have 3: "files_loop files (JObj ?l2) = Inr (JObj (dict_set ''files''
     (JObj (fold (\<lambda>f. dict_set f (JStr f)) (filter (\<lambda>f. f \<noteq> ''meta.json'') files) [])) ?l2))"
    by (rule files_loop_JObj) simp
  show ?thesis
    unfolding create_meta_json_body_def 1 and_then_simps 2 3 by simp
qed

lemma create_meta_json_visit_None:
  assumes "create_meta_json_visit root dirs files = (files', None)"
  shows "\<exists>meta. create_meta_json_body root dirs (map fst files) = Inr meta
           \<and> map_of files' ''meta.json'' = Some (Json meta)"
  using assms
  by (auto simp: create_meta_json_visit_def create_meta_json_body_eq write_file_None
      map_of_dict_set)

text \<open>
  C7, as the specification states it, fails in its last part: the \<^verbatim>\<open>break\<close> of
  \<^verbatim>\<open>create_meta_json\<close> is inside the test for the \<^verbatim>\<open>.hex\<close> ending, so the loop passes
  over the files with another ending and stops at the first \<^verbatim>\<open>.hex\<close> file. A listing
  \<^verbatim>\<open>readme.txt\<close>, \<^verbatim>\<open>fw-1.2.3.4.hex\<close> gets the version 1.2.3.4 from its second file.
\<close>

theorem rebuild_first_file_counterexample:
  "create_meta_json ''rel'' (Dir [(''readme.txt'', Other), (''fw-1.2.3.4.hex'', Other)] [])
   = (Dir [(''readme.txt'', Other), (''fw-1.2.3.4.hex'', Other),
           (''meta.json'', Json (JObj
              [(''self'', JStr ''meta.json''),
               (''selfDirName'', JStr ''rel''),
               (''metaTargets'', JArr []),
               (''files'', JObj [(''readme.txt'', JStr ''readme.txt''),
                                 (''fw-1.2.3.4.hex'', JStr ''fw-1.2.3.4.hex'')]),
               (''versionInfo'', JObj
                  [(''versionCompact'', JStr ''1.2.3.4''),
                   (''versionFull'', JStr ''1.2.3.4''),
                   (''versionFamily'', JInt 1),
                   (''versionMajor'', JInt 2),
                   (''versionMinor'', JInt 3),
                   (''versionPatch'', JInt 4)])]))] [],
      None)"
  by code_simp

text \<open>
  C7, amended: when \<^verbatim>\<open>create_meta_json\<close> succeeds, the manifest of every directory it
  visits is built from nothing but the directory's name and listing, whatever manifest
  was there before: \<^verbatim>\<open>selfDirName\<close> is the base name, \<^verbatim>\<open>metaTargets\<close> has one entry per
  sub-directory, \<^verbatim>\<open>files\<close> maps every listed file other than \<^verbatim>\<open>meta.json\<close> to itself,
  and \<^verbatim>\<open>versionInfo\<close> comes from the first file of the listing that ends in \<^verbatim>\<open>.hex\<close>,
  the files before it being passed over: its version when it matches the pattern, empty
  when it does not or when no file ends in \<^verbatim>\<open>.hex\<close>.
\<close>

theorem rebuild_manifest:
  assumes "create_meta_json root d = (d', None)"
    and "subdir_at d p = Some s"
    and "distinct (map fst (dfiles s))"
  shows "manifest_at d' p = Some (Json (JObj
     [(''self'', JStr ''meta.json''),
      (''selfDirName'', JStr (basename_at root p)),
      (''metaTargets'', JArr (map (\<lambda>directory. JObj [(''targetName'', JStr directory),
          (''metaInformationFile'', JStr (directory @ ''/meta.json''))]) (map fst (dsubs s)))),
      (''files'', JObj (map (\<lambda>f. (f, JStr f))
          (filter (\<lambda>f. f \<noteq> ''meta.json'') (map fst (dfiles s))))),
      (''versionInfo'',
         (case find (\<lambda>f. ends_with f ''.hex'') (map fst (dfiles s)) of
            None \<Rightarrow> JObj []
          | Some f \<Rightarrow>
              (case re_search_version f of
                 None \<Rightarrow> JObj []
               | Some groups \<Rightarrow> version_info groups)))]))"
proof -
  from assms(1) have w: "os_walk create_meta_json_visit root d = (d', None)"
    by (simp add: create_meta_json_def)
  from os_walk_at [OF w assms(2)] obtain s' where at: "subdir_at d' p = Some s'"
    and v: "create_meta_json_visit (basename_at root p) (map fst (dsubs s)) (dfiles s)
              = (dfiles s', None)"
    by blast
  from create_meta_json_visit_None [OF v] obtain meta where
    b: "create_meta_json_body (basename_at root p) (map fst (dsubs s)) (map fst (dfiles s))
          = Inr meta"
    and m: "map_of (dfiles s') ''meta.json'' = Some (Json meta)" by blast
  from assms(3) have "distinct (map fst ([] :: (string \<times> json) list)
      @ filter (\<lambda>f. f \<noteq> ''meta.json'') (map fst (dfiles s)))"
    by simp
  from fold_dict_set_distinct [OF this, of JStr]
  have "fold (\<lambda>f. dict_set f (JStr f)) (filter (\<lambda>f. f \<noteq> ''meta.json'') (map fst (dfiles s))) []
      = map (\<lambda>f. (f, JStr f)) (filter (\<lambda>f. f \<noteq> ''meta.json'') (map fst (dfiles s)))"
    by simp
  with b have "meta = JObj
     [(''self'', JStr ''meta.json''),
      (''selfDirName'', JStr (basename_at root p)),
      (''metaTargets'', JArr (map (\<lambda>directory. JObj [(''targetName'', JStr directory),
          (''metaInformationFile'', JStr (directory @ ''/meta.json''))]) (map fst (dsubs s)))),
      (''files'', JObj (map (\<lambda>f. (f, JStr f))
          (filter (\<lambda>f. f \<noteq> ''meta.json'') (map fst (dfiles s))))),
      (''versionInfo'',
         (case find (\<lambda>f. ends_with f ''.hex'') (map fst (dfiles s)) of
            None \<Rightarrow> JObj []
          | Some f \<Rightarrow>
              (case re_search_version f of
                 None \<Rightarrow> JObj []
               | Some groups \<Rightarrow> version_info groups)))]"
    unfolding create_meta_json_body_eq by simp
  with at m show ?thesis by (simp add: manifest_at_def)
qed

theorem rebuild_manifest_witness:
  "manifest_at (fst (create_meta_json ''rel'' example_rebuild)) [''sub'']
   = Some (Json (JObj
     [(''self'', JStr ''meta.json''),
      (''selfDirName'', JStr ''sub''),
      (''metaTargets'', JArr [JObj [(''targetName'', JStr ''deep''),
          (''metaInformationFile'', JStr ''deep/meta.json'')]]),
      (''files'', JObj [(''notes.txt'', JStr ''notes.txt''), (''a.hex'', JStr ''a.hex''),
          (''fw-1.2.3.4.hex'', JStr ''fw-1.2.3.4.hex'')]),
      (''versionInfo'', JObj [])]))"
proof -
  have h1: "create_meta_json ''rel'' example_rebuild
      = (fst (create_meta_json ''rel'' example_rebuild), None)"
    by code_simp
  have h2: "subdir_at example_rebuild [''sub'']
      = Some (Dir [(''notes.txt'', Other), (''meta.json'', Json (JStr ''stale'')),
                   (''a.hex'', Other), (''fw-1.2.3.4.hex'', Other)]
                  [(''deep'', Dir [] [])])"
    by code_simp
  have h3: "distinct (map fst (dfiles
       (Dir [(''notes.txt'', Other), (''meta.json'', Json (JStr ''stale'')),
             (''a.hex'', Other), (''fw-1.2.3.4.hex'', Other)]
            [(''deep'', Dir [] [])])))"
    by simp
  have e: "(case find (\<lambda>f. ends_with f ''.hex'')
              [''notes.txt'', ''meta.json'', ''a.hex'', ''fw-1.2.3.4.hex''] of
            None \<Rightarrow> JObj []
          | Some f \<Rightarrow>
              (case re_search_version f of
                 None \<Rightarrow> JObj []
               | Some groups \<Rightarrow> version_info groups)) = JObj []"
    by code_simp
  from rebuild_manifest [OF h1 h2 h3] e show ?thesis
    by (simp add: basename_at_def)
qed

section \<open>Key canonicalization: the rewritten mapping\<close>

lemma rewrite_keys_map_of:
  "map_of (rewrite_keys rm maps al acc)
   = map_of acc ++ map_of (rev (map (\<lambda>(k, v). (updated_key rm maps k, v)) al))"
proof (induction al arbitrary: acc)
  case Nil
  then show ?case by simp
next
  case (Cons a al)
  obtain k v where a: "a = (k, v)" by (cases a)
  show ?case
    unfolding a by (simp add: Cons.IH map_of_dict_set map_add_upd_left fun_eq_iff map_add_def
        split: option.splits)
qed

lemma rewrite_keys_names:
  "fst ` set (rewrite_keys rm maps al acc)
   = fst ` set acc \<union> updated_key rm maps ` fst ` set al"
proof (induction al arbitrary: acc)
  case Nil
  then show ?case by simp
next
  case (Cons a al)
  obtain k v where a: "a = (k, v)" by (cases a)
  show ?case unfolding a by (simp add: Cons.IH keys_dict_set)
qed

lemma rewrite_keys_distinct:
  "distinct (map fst acc) \<Longrightarrow> distinct (map fst (rewrite_keys rm maps al acc))"
proof (induction al arbitrary: acc)
  case Nil
  then show ?case by simp
next
  case (Cons a al)
  obtain k v where a: "a = (k, v)" by (cases a)
  from Cons.prems have "distinct (map fst (dict_set (updated_key rm maps k) v acc))"
    by (rule distinct_dict_set)
  from Cons.IH [OF this] show ?case unfolding a by simp
qed

lemma rewrite_keys_no_collision:
  "distinct (map fst acc @ map (updated_key rm maps \<circ> fst) al) \<Longrightarrow>
   rewrite_keys rm maps al acc = acc @ map (\<lambda>(k, v). (updated_key rm maps k, v)) al"
proof (induction al arbitrary: acc)
  case Nil
  then show ?case by simp
next
  case (Cons a al)
  obtain k v where a: "a = (k, v)" by (cases a)
  from Cons.prems a have "updated_key rm maps k \<notin> set (map fst acc)" by auto
  then have d: "dict_set (updated_key rm maps k) v acc = acc @ [(updated_key rm maps k, v)]"
    by (rule dict_set_new)
  from Cons.prems a
  have "distinct (map fst (acc @ [(updated_key rm maps k, v)])
          @ map (updated_key rm maps \<circ> fst) al)"
    by (auto simp: comp_def)
  from Cons.IH [OF this] d show ?case unfolding a by simp
qed

lemma rewrite_keys_length:
  "length (rewrite_keys rm maps al []) = card (updated_key rm maps ` fst ` set al)"
proof -
  have "distinct (map fst (rewrite_keys rm maps al []))"
    by (rule rewrite_keys_distinct) simp
  then have "length (map fst (rewrite_keys rm maps al []))
      = card (set (map fst (rewrite_keys rm maps al [])))"
    by (simp only: distinct_card)
  then show ?thesis by (simp add: rewrite_keys_names)
qed

lemma updated_key_no_match:
  "\<not> list_ex (\<lambda>(key, vals). list_ex (\<lambda>pattern. rm pattern old_key) vals) maps \<Longrightarrow>
   updated_key rm maps old_key = old_key"
  by (induction maps) (auto simp: updated_key_def)

lemma updated_key_first_match:
  "maps = pre @ (key, vals) # post \<Longrightarrow>
   list_ex (\<lambda>pattern. rm pattern old_key) vals \<Longrightarrow>
   \<not> list_ex (\<lambda>(k, vs). list_ex (\<lambda>pattern. rm pattern old_key) vs) pre \<Longrightarrow>
   updated_key rm maps old_key = key"
proof (induction pre arbitrary: maps)
  case Nil
  then show ?case by (simp add: updated_key_def)
next
  case (Cons a pre)
  obtain k vs where a: "a = (k, vs)" by (cases a)
  from Cons.prems(3) a have n: "\<not> list_ex (\<lambda>pattern. rm pattern old_key) vs"
    and r: "\<not> list_ex (\<lambda>(k, vs). list_ex (\<lambda>pattern. rm pattern old_key) vs) pre" by auto
  from Cons.IH [OF refl Cons.prems(2) r] n Cons.prems(1) a show ?case
    by (simp add: updated_key_def)
qed

lemma update_keys_body_JObj:
  "map_of doc ''files'' = Some (JObj al) \<Longrightarrow>
   update_keys_body rm maps (JObj doc)
   = Inr (Some (JObj (dict_set ''files'' (JObj (rewrite_keys rm maps al [])) doc)))"
  by (frule map_of_Some_key)
     (simp add: update_keys_body_def contains_def getitem_JObj items_def setitem_JObj)

lemma collision_shrinks:
  assumes "(k1, v1) \<in> set al" and "(k2, v2) \<in> set al" and "k1 \<noteq> k2"
    and "updated_key rm maps k1 = updated_key rm maps k2"
  shows "length (rewrite_keys rm maps al []) < length al"
proof -
  let ?K = "fst ` set al"
  have k: "k1 \<in> ?K" "k2 \<in> ?K" using assms(1,2) by force+
  with assms(3,4) have "\<not> inj_on (updated_key rm maps) ?K" by (auto simp: inj_on_def)
  then have "card (updated_key rm maps ` ?K) \<noteq> card ?K"
    using eq_card_imp_inj_on [of ?K "updated_key rm maps"] by auto
  moreover have "card (updated_key rm maps ` ?K) \<le> card ?K"
    by (rule card_image_le) simp
  moreover have "card ?K \<le> length al"
    using card_length [of "map fst al"] by simp
  ultimately show ?thesis by (simp add: rewrite_keys_length)
qed

lemma later_value_wins:
  assumes "al = xs @ (k2, v2) # zs"
    and "updated_key rm maps k2 \<notin> updated_key rm maps ` fst ` set zs"
  shows "map_of (rewrite_keys rm maps al []) (updated_key rm maps k2) = Some v2"
proof -
  have "map_of (map (\<lambda>(k, v). (updated_key rm maps k, v)) zs) (updated_key rm maps k2) = None"
    using assms(2) by (auto simp: map_of_eq_None_iff image_iff)
  then have "map_of (rev (map (\<lambda>(k, v). (updated_key rm maps k, v)) zs)) (updated_key rm maps k2) = None"
    by (simp add: map_of_eq_None_iff)
  then show ?thesis
    unfolding rewrite_keys_map_of assms(1)
    by (simp add: map_add_def split: option.splits)
qed

lemma update_keys_loop_once:
  "distinct names \<Longrightarrow>
   update_keys_loop rm maps dirs names files
   = (if ''meta.json'' \<in> set names then update_keys_file rm maps dirs files
      else (files, None))"
proof (induction names arbitrary: files)
  case Nil
  then show ?case by simp
next
  case (Cons n names)
  show ?case
  proof (cases "n = ''meta.json''")
    case True
    with Cons.prems have "''meta.json'' \<notin> set names" by simp
    with Cons True show ?thesis
      by (cases "update_keys_file rm maps dirs files") (auto split: option.splits)
  next
    case False
    with Cons show ?thesis by simp
  qed
qed

lemma update_meta_file_keys_manifest:
  assumes u: "update_meta_file_keys rm maps root d = (d', None)"
    and at: "subdir_at d p = Some s"
    and dn: "distinct (map fst (dfiles s))"
    and m: "map_of (dfiles s) ''meta.json'' = Some (Json (JObj doc))"
    and f: "map_of doc ''files'' = Some (JObj al)"
  shows "manifest_at d' p
       = Some (Json (JObj (dict_set ''files'' (JObj (rewrite_keys rm maps al [])) doc)))"
proof -
  from u have w: "os_walk (\<lambda>r dirs files.
        update_keys_loop rm maps dirs (map fst files) files) root d = (d', None)"
    by (simp add: update_meta_file_keys_def)
  from os_walk_at [OF w at] obtain s' where at': "subdir_at d' p = Some s'"
    and v: "update_keys_loop rm maps (map fst (dsubs s)) (map fst (dfiles s)) (dfiles s)
              = (dfiles s', None)"
    by blast
  from m have "''meta.json'' \<in> fst ` set (dfiles s)" by (rule map_of_Some_key)
  with v dn have "update_keys_file rm maps (map fst (dsubs s)) (dfiles s) = (dfiles s', None)"
    by (simp add: update_keys_loop_once)
  with m f have "map_of (dfiles s') ''meta.json''
      = Some (Json (JObj (dict_set ''files'' (JObj (rewrite_keys rm maps al [])) doc)))"
    by (auto simp: update_keys_file_def update_keys_body_JObj write_file_None map_of_dict_set)
  with at' show ?thesis by (simp add: manifest_at_def)
qed

text \<open>
  C9: when \<^verbatim>\<open>update_meta_file_keys\<close> succeeds, the \<^verbatim>\<open>files\<close> mapping of every manifest
  is the mapping built by storing each old value under the updated key of its old key,
  in order; when no two old keys get the same updated key, this is the old mapping with
  each key replaced in place. The updated key of an old key is the first key of the
  regex mapping, in iteration order, one of whose patterns matches the old key at its
  start, and the old key itself when there is none. With the regex mapping
  \<^verbatim>\<open>{"k1": ["^x.*"]}\<close>, the entry \<^verbatim>\<open>{"x1.txt": "x1.txt"}\<close> becomes
  \<^verbatim>\<open>{"k1": "x1.txt"}\<close>.
\<close>

theorem key_canonicalization:
  "(update_meta_file_keys rm maps root d = (d', None) \<longrightarrow>
    subdir_at d p = Some s \<longrightarrow>
    distinct (map fst (dfiles s)) \<longrightarrow>
    map_of (dfiles s) ''meta.json'' = Some (Json (JObj doc)) \<longrightarrow>
    map_of doc ''files'' = Some (JObj al) \<longrightarrow>
      manifest_at d' p
        = Some (Json (JObj (dict_set ''files'' (JObj (rewrite_keys rm maps al [])) doc)))
      \<and> map_of (rewrite_keys rm maps al [])
        = map_of (rev (map (\<lambda>(k, v). (updated_key rm maps k, v)) al))
      \<and> (distinct (map (updated_key rm maps \<circ> fst) al) \<longrightarrow>
           rewrite_keys rm maps al [] = map (\<lambda>(k, v). (updated_key rm maps k, v)) al))
   \<and> (\<not> list_ex (\<lambda>(key, vals). list_ex (\<lambda>pattern. rm pattern old_key) vals) maps \<longrightarrow>
        updated_key rm maps old_key = old_key)
   \<and> (maps = pre @ (key, vals) # post \<longrightarrow>
        list_ex (\<lambda>pattern. rm pattern old_key) vals \<longrightarrow>
        \<not> list_ex (\<lambda>(k, vs). list_ex (\<lambda>pattern. rm pattern old_key) vs) pre \<longrightarrow>
        updated_key rm maps old_key = key)
   \<and> update_meta_file_keys simple_re_match [(''k1'', [''^x.*''])] ''.''
        (Dir [(''meta.json'', Json (JObj [(''files'', JObj [(''x1.txt'', JStr ''x1.txt'')])]))] [])
      = (Dir [(''meta.json'', Json (JObj [(''files'', JObj [(''k1'', JStr ''x1.txt'')])]))] [],
         None)"
proof -
  have "rewrite_keys rm maps al [] = map (\<lambda>(k, v). (updated_key rm maps k, v)) al"
    if "distinct (map (updated_key rm maps \<circ> fst) al)"
    using rewrite_keys_no_collision [of "[]" rm maps al] that by simp
  moreover have "map_of (rewrite_keys rm maps al [])
        = map_of (rev (map (\<lambda>(k, v). (updated_key rm maps k, v)) al))"
    by (simp add: rewrite_keys_map_of)
  moreover have "update_meta_file_keys simple_re_match [(''k1'', [''^x.*''])] ''.''
        (Dir [(''meta.json'', Json (JObj [(''files'', JObj [(''x1.txt'', JStr ''x1.txt'')])]))] [])
      = (Dir [(''meta.json'', Json (JObj [(''files'', JObj [(''k1'', JStr ''x1.txt'')])]))] [],
         None)"
    by code_simp
  ultimately show ?thesis
    using update_meta_file_keys_manifest [of rm maps root d d' p s doc al]
      updated_key_no_match [of rm old_key maps]
      updated_key_first_match [of maps pre key vals post rm old_key]
    by blast
qed

theorem key_canonicalization_witness:
  "manifest_at (fst (update_meta_file_keys simple_re_match example_mappings ''.'' example_keys))
       [''a'']
     = Some (Json (JObj [(''self'', JStr ''meta.json''),
          (''files'', JObj [(''k1'', JStr ''x1.txt''), (''k2'', JStr ''y1.txt''),
                            (''z1.txt'', JStr ''z1.txt'')])]))
   \<and> updated_key simple_re_match example_mappings ''z1.txt'' = ''z1.txt''
   \<and> updated_key simple_re_match example_mappings ''x1.txt'' = ''k1''"
proof -
  let ?al = "[(''x1.txt'', JStr ''x1.txt''), (''y1.txt'', JStr ''y1.txt''),
              (''z1.txt'', JStr ''z1.txt'')]"
  let ?doc = "[(''self'', JStr ''meta.json''), (''files'', JObj ?al)]"
  let ?s = "Dir [(''meta.json'', Json (JObj ?doc))] []"
  let ?d' = "fst (update_meta_file_keys simple_re_match example_mappings ''.'' example_keys)"
  have h1: "update_meta_file_keys simple_re_match example_mappings ''.'' example_keys
      = (?d', None)"
    by code_simp
  have h2: "subdir_at example_keys [''a''] = Some ?s" by code_simp
  have h3: "distinct (map fst (dfiles ?s))" by simp
  have h4: "map_of (dfiles ?s) ''meta.json'' = Some (Json (JObj ?doc))" by simp
  have h5: "map_of ?doc ''files'' = Some (JObj ?al)" by simp
  have h6: "distinct (map (updated_key simple_re_match example_mappings \<circ> fst) ?al)"
    by code_simp
  have e: "map (\<lambda>(k, v). (updated_key simple_re_match example_mappings k, v)) ?al
      = [(''k1'', JStr ''x1.txt''), (''k2'', JStr ''y1.txt''), (''z1.txt'', JStr ''z1.txt'')]"
    by code_simp
  have n1: "\<not> list_ex (\<lambda>(key, vals). list_ex (\<lambda>pattern. simple_re_match pattern ''z1.txt'') vals)
      example_mappings"
    by code_simp
  have n2: "example_mappings = [] @ (''k1'', [''^x.*'']) # [(''k2'', [''^y.*'', ''^x.*''])]"
    by (simp add: example_mappings_def)
  have n3: "list_ex (\<lambda>pattern. simple_re_match pattern ''x1.txt'') [''^x.*'']" by code_simp
  have n4: "\<not> list_ex (\<lambda>(k, vs). list_ex (\<lambda>pattern. simple_re_match pattern ''x1.txt'') vs) []"
    by simp
  from key_canonicalization [of simple_re_match example_mappings "''.''" example_keys ?d'
      "[''a'']" ?s ?doc ?al "''z1.txt''"] h1 h2 h3 h4 h5 h6 n1
  have "manifest_at ?d' [''a''] = Some (Json (JObj (dict_set ''files''
          (JObj (map (\<lambda>(k, v). (updated_key simple_re_match example_mappings k, v)) ?al)) ?doc)))"
    and z: "updated_key simple_re_match example_mappings ''z1.txt'' = ''z1.txt''"
    by auto
  then have m: "manifest_at ?d' [''a'']
     = Some (Json (JObj [(''self'', JStr ''meta.json''),
          (''files'', JObj [(''k1'', JStr ''x1.txt''), (''k2'', JStr ''y1.txt''),
                            (''z1.txt'', JStr ''z1.txt'')])]))"
    unfolding e by simp
  from key_canonicalization [where rm = simple_re_match and maps = example_mappings
      and old_key = "''x1.txt''" and pre = "[]" and key = "''k1''" and vals = "[''^x.*'']"
      and post = "[(''k2'', [''^y.*'', ''^x.*''])]"] n2 n3 n4
  have x: "updated_key simple_re_match example_mappings ''x1.txt'' = ''k1''"
    by blast
  from m z x show ?thesis by simp
qed

text \<open>
  C10: when two different old keys of a \<^verbatim>\<open>files\<close> mapping get the same updated key, the
  rewritten mapping is shorter than the old one and holds each key once; under the shared
  key it holds the value of the later of the two old keys, when no old key after it gets
  that key again. With the regex mapping \<^verbatim>\<open>{"k1": ["^x.*"]}\<close>, the entries
  \<^verbatim>\<open>x1.txt\<close> and \<^verbatim>\<open>x2.txt\<close> leave the single entry \<^verbatim>\<open>{"k1": "x2.txt"}\<close>.
\<close>

theorem key_collision_drops_entries:
  "((k1, v1) \<in> set al \<longrightarrow> (k2, v2) \<in> set al \<longrightarrow> k1 \<noteq> k2 \<longrightarrow>
    updated_key rm maps k1 = updated_key rm maps k2 \<longrightarrow>
      length (rewrite_keys rm maps al []) < length al
      \<and> distinct (map fst (rewrite_keys rm maps al [])))
   \<and> (al = xs @ (k1, v1) # ys @ (k2, v2) # zs \<longrightarrow>
      updated_key rm maps k1 = updated_key rm maps k2 \<longrightarrow>
      updated_key rm maps k2 \<notin> updated_key rm maps ` fst ` set zs \<longrightarrow>
        map_of (rewrite_keys rm maps al []) (updated_key rm maps k1) = Some v2)
   \<and> update_meta_file_keys simple_re_match [(''k1'', [''^x.*''])] ''.''
        (Dir [(''meta.json'', Json (JObj [(''files'',
           JObj [(''x1.txt'', JStr ''x1.txt''), (''x2.txt'', JStr ''x2.txt'')])]))] [])
      = (Dir [(''meta.json'', Json (JObj [(''files'', JObj [(''k1'', JStr ''x2.txt'')])]))] [],
         None)"
proof -
  have "distinct (map fst (rewrite_keys rm maps al []))"
    by (rule rewrite_keys_distinct) simp
  moreover have "map_of (rewrite_keys rm maps al []) (updated_key rm maps k1) = Some v2"
    if "al = xs @ (k1, v1) # ys @ (k2, v2) # zs"
      and "updated_key rm maps k1 = updated_key rm maps k2"
      and "updated_key rm maps k2 \<notin> updated_key rm maps ` fst ` set zs"
    using later_value_wins [of al "xs @ (k1, v1) # ys" k2 v2 zs rm maps] that by simp
  moreover have "update_meta_file_keys simple_re_match [(''k1'', [''^x.*''])] ''.''
        (Dir [(''meta.json'', Json (JObj [(''files'',
           JObj [(''x1.txt'', JStr ''x1.txt''), (''x2.txt'', JStr ''x2.txt'')])]))] [])
      = (Dir [(''meta.json'', Json (JObj [(''files'', JObj [(''k1'', JStr ''x2.txt'')])]))] [],
         None)"
    by code_simp
  ultimately show ?thesis
    using collision_shrinks [of k1 v1 al k2 v2 rm maps] by blast
qed

theorem key_collision_drops_entries_witness:
  "length (rewrite_keys simple_re_match [(''k1'', [''^x.*''])]
       [(''x1.txt'', JStr ''x1.txt''), (''a.txt'', JStr ''a.txt''), (''x2.txt'', JStr ''x2.txt'')]
       []) < 3
   \<and> map_of (rewrite_keys simple_re_match [(''k1'', [''^x.*''])]
       [(''x1.txt'', JStr ''x1.txt''), (''a.txt'', JStr ''a.txt''), (''x2.txt'', JStr ''x2.txt'')]
       []) ''k1'' = Some (JStr ''x2.txt'')"
proof -
  let ?maps = "[(''k1'', [''^x.*''])]"
  let ?al = "[(''x1.txt'', JStr ''x1.txt''), (''a.txt'', JStr ''a.txt''),
              (''x2.txt'', JStr ''x2.txt'')]"
  have h1: "(''x1.txt'', JStr ''x1.txt'') \<in> set ?al" by simp
  have h2: "(''x2.txt'', JStr ''x2.txt'') \<in> set ?al" by simp
  have h3: "''x1.txt'' \<noteq> ''x2.txt''" by simp
  have k1: "updated_key simple_re_match ?maps ''x1.txt'' = ''k1''" by code_simp
  have k2: "updated_key simple_re_match ?maps ''x2.txt'' = ''k1''" by code_simp
  have h4: "updated_key simple_re_match ?maps ''x1.txt''
      = updated_key simple_re_match ?maps ''x2.txt''"
    by (simp only: k1 k2)
  have h5: "?al = [] @ (''x1.txt'', JStr ''x1.txt'') # [(''a.txt'', JStr ''a.txt'')]
      @ (''x2.txt'', JStr ''x2.txt'') # []"
    by simp
  have h6: "updated_key simple_re_match ?maps ''x2.txt''
      \<notin> updated_key simple_re_match ?maps ` fst ` set ([] :: (string \<times> json) list)"
    by simp
  from key_collision_drops_entries [of "''x1.txt''" "JStr ''x1.txt''" ?al "''x2.txt''"
      "JStr ''x2.txt''" simple_re_match ?maps "[]" "[(''a.txt'', JStr ''a.txt'')]" "[]"]
    h1 h2 h3 h4 h5 h6
  have "length (rewrite_keys simple_re_match ?maps ?al []) < length ?al"
    and "map_of (rewrite_keys simple_re_match ?maps ?al [])
           (updated_key simple_re_match ?maps ''x1.txt'') = Some (JStr ''x2.txt'')"
    by blast+
  then show ?thesis unfolding k1 by simp
qed

section \<open>The router\<close>

text \<open>
  C2: the claim is what the docstring of \<^verbatim>\<open>create_folders\<close> promises (all folders of
  the specification are created), and the code misses it: the loop over the sub-folders
  sits inside the branch that has just created the folder. With a folder \<^verbatim>\<open>a\<close> already
  there and the specification \<^verbatim>\<open>{"a": {"sub": {"files": {}}}}\<close>, \<^verbatim>\<open>a/sub\<close> is not
  created; from an empty working directory both are.
\<close>

theorem create_folders_skips_existing_folder:
  "create_folders example_nested (Dir [] [(''a'', Dir [] [])])
     = (Dir [] [(''a'', Dir [] [])], None)
   \<and> \<not> path_exists (fst (create_folders example_nested (Dir [] [(''a'', Dir [] [])])))
         [''a'', ''sub'']
   \<and> create_folders example_nested (Dir [] [])
     = (Dir [] [(''a'', Dir [] [(''sub'', Dir [] [])])], None)"
  by code_simp

section \<open>The router: moving the files\<close>

lemma take_entry_None:
  "name \<notin> set (listdir d) \<Longrightarrow> take_entry name d = None"
  by (auto simp: take_entry_def listdir_def dest: map_of_Some_key split: option.splits)

lemma take_entry_listdir:
  assumes "take_entry name d = Some (e, d1)" and "distinct (listdir d)"
  shows "name \<notin> set (listdir d1)"
proof (cases "map_of (dfiles d) name")
  case (Some c)
  then have "name \<in> set (map fst (dfiles d))" using map_of_Some_key by fastforce
  with assms(2) have "name \<notin> set (map fst (dsubs d))" by (auto simp: listdir_def)
  moreover from assms(1) Some have "d1 = Dir (filter (\<lambda>e. fst e \<noteq> name) (dfiles d)) (dsubs d)"
    by (simp add: take_entry_def)
  ultimately show ?thesis by (auto simp: listdir_def)
next
  case None
  then have "name \<notin> set (map fst (dfiles d))" by (simp add: map_of_eq_None_iff)
  moreover from assms(1) None have "d1 = Dir (dfiles d) (filter (\<lambda>e. fst e \<noteq> name) (dsubs d))"
    by (auto simp: take_entry_def split: option.splits)
  ultimately show ?thesis by (auto simp: listdir_def)
qed

lemma put_entry_listdir:
  "put_entry (n # p) name e d = Inr d' \<Longrightarrow> listdir d' = listdir d"
  by (auto simp: listdir_def names_dict_set dest: map_of_Some_key split: option.splits sum.splits)

text \<open>
  The step the loops of \<^verbatim>\<open>move_files\<close> repeat: once \<^verbatim>\<open>os.rename\<close> has moved a name
  into a folder, the name is no longer in the working directory, and every further
  \<^verbatim>\<open>os.rename\<close> of that name raises, whatever its destination.
\<close>

lemma rename_into_gone:
  assumes "rename_into file dest cwd = (cwd', None)"
    and "filter (\<lambda>n. n \<noteq> []) dest \<noteq> []"
    and "distinct (listdir cwd)"
  shows "file \<notin> set (listdir cwd')"
proof -
  from assms(1,2) obtain e c1 where t: "take_entry file cwd = Some (e, c1)"
    and p: "put_entry (filter (\<lambda>n. n \<noteq> []) dest) file e c1 = Inr cwd'"
    by (auto simp: rename_into_def Let_def
        split: option.splits entry.splits sum.splits if_splits)
  from assms(2) obtain n q where "filter (\<lambda>n. n \<noteq> []) dest = n # q"
    by (cases "filter (\<lambda>n. n \<noteq> []) dest") auto
  with p have "listdir cwd' = listdir c1" by (simp only: put_entry_listdir)
  with take_entry_listdir [OF t assms(3)] show ?thesis by simp
qed

lemma rename_into_again:
  assumes "rename_into file dest cwd = (cwd', None)"
    and "filter (\<lambda>n. n \<noteq> []) dest \<noteq> []"
    and "distinct (listdir cwd)"
  shows "\<exists>x. rename_into file dest2 cwd' = (cwd', Some x)"
proof -
  from rename_into_gone [OF assms] have "take_entry file cwd' = None"
    by (rule take_entry_None)
  then show ?thesis
    by (auto simp: rename_into_def Let_def split: sum.splits)
qed

text \<open>
  C4: the claim is what \<^verbatim>\<open>move_files\<close> is written for (its docstring: moves files into
  folders based on the folder structure data), and the code misses it for a name that
  matches more than one pattern. There is no exit after \<^verbatim>\<open>os.rename\<close>, so the loops go
  on to the next pattern, and the second \<^verbatim>\<open>os.rename\<close> of the name raises
  \<^verbatim>\<open>FileNotFoundError\<close>: the file has just been moved. With the specification
  \<^verbatim>\<open>{"a": {"files": {"k1": "^x.*"}}, "b": {"files": {"k2": "^x.*"}}}\<close>, the folders
  \<^verbatim>\<open>a\<close> and \<^verbatim>\<open>b\<close> and the files \<^verbatim>\<open>x1.txt\<close> and \<^verbatim>\<open>x2.txt\<close>, the first file of the
  listing is moved into \<^verbatim>\<open>a\<close> and the run ends there with the exception; the other file
  is not moved, whichever of the two is listed first. Two patterns of one folder that
  match the same name end the run in the same way. The example of the claim, in which no
  name matches two patterns, comes out as the claim says.
\<close>

theorem move_files_second_match_raises:
  "move_files simple_re_match example_overlap
     (Dir [(''x1.txt'', Other), (''x2.txt'', Other)] [(''a'', Dir [] []), (''b'', Dir [] [])])
   = (Dir [(''x2.txt'', Other)] [(''a'', Dir [(''x1.txt'', Other)] []), (''b'', Dir [] [])],
      Some FileNotFoundError)
   \<and> move_files simple_re_match example_overlap
     (Dir [(''x2.txt'', Other), (''x1.txt'', Other)] [(''a'', Dir [] []), (''b'', Dir [] [])])
   = (Dir [(''x1.txt'', Other)] [(''a'', Dir [(''x2.txt'', Other)] []), (''b'', Dir [] [])],
      Some FileNotFoundError)
   \<and> move_files simple_re_match example_twice
     (Dir [(''x1.txt'', Other)] [(''a'', Dir [] [])])
   = (Dir [] [(''a'', Dir [(''x1.txt'', Other)] [])], Some FileNotFoundError)
   \<and> move_files simple_re_match example_spec example_cwd
   = (Dir [(''z1.txt'', Other)]
          [(''a'', Dir [(''x1.txt'', Other)] []), (''b'', Dir [(''y1.txt'', Other)] [])],
      None)"
  by code_simp

end
